theory Spec2Isabelle
  imports Main
begin

section \<open>Remote merge: the \<open>POST /api/pairs/batch\<close> handler of server.js\<close>

text \<open>
  Timestamps (ISO-8601 strings in the source, compared only for order) are natural
  numbers. The SQLite tables \<open>asset_tags\<close> (primary key \<open>tag\<close>) and \<open>pairs\<close>
  (autoincrement \<open>id\<close>, \<open>UNIQUE(asset_tag, serial)\<close>) are a map and a list of rows.
\<close>

datatype tag_status = unused | used

record tag_row =
  tr_status :: tag_status
  tr_last_serial :: "string option"
  tr_updated_at :: nat

record pair_row =
  pr_id :: nat
  pr_asset_tag :: string
  pr_serial :: string
  pr_assigned_by :: string
  pr_assigned_at :: nat

record server_db =
  asset_tags :: "string \<rightharpoonup> tag_row"
  pairs_tbl :: "pair_row list"
  pairs_seq :: nat

text \<open>One element of the request body: \<open>{asset_tag, serial, scanned_at}\<close>;
  \<open>scanned_at\<close> may be absent.\<close>

record pair_req =
  rq_asset_tag :: string
  rq_serial :: string
  rq_scanned_at :: "nat option"

text \<open>The \<open>status\<close> strings the handler writes into a result entry.\<close>

datatype item_status =
  ok_inserted | ok_overwrite_same_pair | missing_asset_tag | asset_tag_in_use | srv_error

record item_result =
  ir_status :: item_status
  ir_asset_tag :: string
  ir_serial :: string
  ir_message :: "string option"

text \<open>Each \<open>err\<close> argument of a sqlite3 callback is a branch of the handler; which
  statement of an item's chain fails, if any, is given by the environment.\<close>

datatype db_fault = NoFault | TagLookupFails | PairLookupFails | InsertFails

text \<open>\<open>SELECT * FROM pairs WHERE asset_tag = ? AND serial = ?\<close> returning a row.\<close>

definition existingPair :: "server_db \<Rightarrow> string \<Rightarrow> string \<Rightarrow> bool" where
  "existingPair db t s = list_ex (\<lambda>r. pr_asset_tag r = t \<and> pr_serial r = s) (pairs_tbl db)"

text \<open>\<open>INSERT OR REPLACE INTO pairs\<close>: the row that conflicts on
  \<open>(asset_tag, serial)\<close> is deleted and a row with a fresh id is inserted.\<close>

definition insert_or_replace :: "server_db \<Rightarrow> string \<Rightarrow> string \<Rightarrow> string \<Rightarrow> nat \<Rightarrow> server_db" where
  "insert_or_replace db t s by_user at =
     db\<lparr>pairs_tbl :=
          filter (\<lambda>r. \<not> (pr_asset_tag r = t \<and> pr_serial r = s)) (pairs_tbl db)
          @ [\<lparr>pr_id = pairs_seq db, pr_asset_tag = t, pr_serial = s,
              pr_assigned_by = by_user, pr_assigned_at = at\<rparr>],
        pairs_seq := Suc (pairs_seq db)\<rparr>"

text \<open>\<open>UPDATE asset_tags SET status = 'used', last_serial = ?, updated_at =
  CURRENT_TIMESTAMP WHERE tag = ?\<close>: no row is created when the tag is absent.\<close>

definition update_asset_tag_used :: "server_db \<Rightarrow> string \<Rightarrow> string \<Rightarrow> nat \<Rightarrow> server_db" where
  "update_asset_tag_used db t s now =
     (case asset_tags db t of
        None \<Rightarrow> db
      | Some _ \<Rightarrow> db\<lparr>asset_tags := (asset_tags db)
            (t \<mapsto> \<lparr>tr_status = used, tr_last_serial = Some s, tr_updated_at = now\<rparr>)\<rparr>)"

text \<open>
  The handler starts one chain of statements per pair, all of them inside
  \<open>pairs.forEach\<close> and none inside \<open>db.serialize\<close> or a transaction: the tag lookup,
  whose callback issues the pair lookup, whose callback issues the
  \<open>INSERT OR REPLACE\<close>, whose callback issues the \<open>UPDATE\<close> and stores the result
  entry. SQLite runs one statement at a time, and the statements of different pairs run
  in an order the handler does not fix. A chain is at the statement it will run next;
  \<open>AtInsert\<close> carries what the callback of the pair lookup has already computed, the
  status to report and the \<open>assigned_at\<close> value.
\<close>

datatype chain = AtTagLookup | AtPairLookup | AtInsert item_status nat | AtUpdate | Finished

text \<open>\<open>results[index] = r\<close> on a JavaScript array: an index past the end extends the
  array, the skipped positions being holes.\<close>

definition js_set :: "'a option list \<Rightarrow> nat \<Rightarrow> 'a \<Rightarrow> 'a option list" where
  "js_set xs i v =
     (if i < length xs then xs[i := Some v]
      else xs @ replicate (i - length xs) None @ [Some v])"

datatype http_reply = Status400 string | Json "item_result option list"

text \<open>The handler's variables: the database, where each pair's chain stands,
  \<open>results\<close>, \<open>completed\<close>, and the reply passed to \<open>res\<close> so far (\<open>None\<close>: nothing
  has been sent).\<close>

record handler_state =
  hs_db :: server_db
  hs_chains :: "chain list"
  hs_results :: "item_result option list"
  hs_completed :: nat
  hs_sent :: "http_reply option"

text \<open>The end of a callback that settles its pair: \<open>results[index] = r; completed++;
  if (completed === pairs.length) res.json(results)\<close>. \<open>n\<close> is \<open>pairs.length\<close>; the
  test is made only here.\<close>

definition settle_item :: "nat \<Rightarrow> nat \<Rightarrow> item_result \<Rightarrow> chain \<Rightarrow> handler_state \<Rightarrow> handler_state" where
  "settle_item n index r next_stmt h =
     (let results' = js_set (hs_results h) index r;
          completed' = Suc (hs_completed h)
      in h\<lparr>hs_chains := (hs_chains h)[index := next_stmt],
           hs_results := results',
           hs_completed := completed',
           hs_sent := (if completed' = n then Some (Json results') else hs_sent h)\<rparr>)"

text \<open>The next statement of the chain of the pair at \<open>index\<close> runs on the database as it
  is now, followed by its callback. \<open>flt\<close> says which statement of this chain fails, if
  any; \<open>now\<close> is the server clock; \<open>user\<close> is \<open>req.user.username\<close>, set by the
  authentication middleware.\<close>

definition run_statement ::
  "db_fault \<Rightarrow> nat \<Rightarrow> string \<Rightarrow> pair_req list \<Rightarrow> nat \<Rightarrow> handler_state \<Rightarrow> handler_state" where
  "run_statement flt now user ps index h =
     (if length ps \<le> index then h
      else
        let n = length ps; t = rq_asset_tag (ps ! index); s = rq_serial (ps ! index);
            db = hs_db h
        in case hs_chains h ! index of
             AtTagLookup \<Rightarrow>
               if flt = TagLookupFails then
                 settle_item n index
                   \<lparr>ir_status = srv_error, ir_asset_tag = t, ir_serial = s,
                     ir_message = Some ''Database error''\<rparr> Finished h
               else (case asset_tags db t of
                 None \<Rightarrow>
                   settle_item n index
                     \<lparr>ir_status = missing_asset_tag, ir_asset_tag = t, ir_serial = s,
                       ir_message = Some ''Asset tag not found''\<rparr> Finished h
               | Some _ \<Rightarrow> h\<lparr>hs_chains := (hs_chains h)[index := AtPairLookup]\<rparr>)
           | AtPairLookup \<Rightarrow>
               if flt = PairLookupFails then
                 settle_item n index
                   \<lparr>ir_status = srv_error, ir_asset_tag = t, ir_serial = s,
                     ir_message = Some ''Database error''\<rparr> Finished h
               else
                 h\<lparr>hs_chains := (hs_chains h)
                      [index := AtInsert
                         (if existingPair db t s then ok_overwrite_same_pair else ok_inserted)
                         (case rq_scanned_at (ps ! index) of Some at \<Rightarrow> at | None \<Rightarrow> now)]\<rparr>
           | AtInsert status at \<Rightarrow>
               if flt = InsertFails then
                 settle_item n index
                   \<lparr>ir_status = srv_error, ir_asset_tag = t, ir_serial = s,
                     ir_message = Some ''Failed to save pair''\<rparr> Finished h
               else
                 settle_item n index
                   \<lparr>ir_status = status, ir_asset_tag = t, ir_serial = s, ir_message = None\<rparr>
                   AtUpdate (h\<lparr>hs_db := insert_or_replace db t s user at\<rparr>)
           | AtUpdate \<Rightarrow>
               h\<lparr>hs_db := update_asset_tag_used db t s now,
                 hs_chains := (hs_chains h)[index := Finished]\<rparr>
           | Finished \<Rightarrow> h)"

text \<open>A schedule is the order in which the statements run: each element names the pair
  whose next statement runs. The \<open>k\<close>-th statement runs at server time \<open>clk k\<close>.\<close>

fun run_schedule ::
  "(nat \<Rightarrow> db_fault) \<Rightarrow> (nat \<Rightarrow> nat) \<Rightarrow> string \<Rightarrow> pair_req list \<Rightarrow> nat \<Rightarrow> nat list
     \<Rightarrow> handler_state \<Rightarrow> handler_state" where
  "run_schedule flt clk user ps k [] h = h"
| "run_schedule flt clk user ps k (index # sched) h =
     run_schedule flt clk user ps (Suc k) sched
       (run_statement (flt index) (clk k) user ps index h)"

datatype req_body = NotArray | PairArray "pair_req list"

text \<open>The handler's variables after the statements of a schedule have run, starting with
  every chain at its tag lookup (what \<open>pairs.forEach\<close> has issued).\<close>

definition batch_state ::
  "(nat \<Rightarrow> db_fault) \<Rightarrow> (nat \<Rightarrow> nat) \<Rightarrow> string \<Rightarrow> nat list \<Rightarrow> server_db \<Rightarrow> pair_req list
     \<Rightarrow> handler_state" where
  "batch_state flt clk user sched db ps =
     run_schedule flt clk user ps 0 sched
       \<lparr>hs_db = db, hs_chains = replicate (length ps) AtTagLookup,
        hs_results = [], hs_completed = 0, hs_sent = None\<rparr>"

text \<open>The handler under a schedule: the database it leaves and the reply it has sent.\<close>

definition pairs_batch ::
  "(nat \<Rightarrow> db_fault) \<Rightarrow> (nat \<Rightarrow> nat) \<Rightarrow> string \<Rightarrow> nat list \<Rightarrow> server_db \<Rightarrow> req_body
     \<Rightarrow> server_db \<times> http_reply option" where
  "pairs_batch flt clk user sched db body =
     (case body of
        NotArray \<Rightarrow> (db, Some (Status400 ''Expected array of pairs''))
      | PairArray ps \<Rightarrow>
          (let h = batch_state flt clk user sched db ps in (hs_db h, hs_sent h)))"

text \<open>A chain whose result entry has been stored, and the entries a reply may hold: one
  per pair, none a hole, each naming the asset_tag and serial of the pair at its index.\<close>

definition settled :: "chain \<Rightarrow> bool" where
  "settled ch = (ch = AtUpdate \<or> ch = Finished)"

definition aligned :: "pair_req list \<Rightarrow> item_result option list \<Rightarrow> bool" where
  "aligned ps rs =
     (length rs = length ps \<and>
      (\<forall>i<length ps. \<exists>r. rs ! i = Some r \<and> ir_asset_tag r = rq_asset_tag (ps ! i)
                                        \<and> ir_serial r = rq_serial (ps ! i)))"

definition handler_inv :: "pair_req list \<Rightarrow> handler_state \<Rightarrow> bool" where
  "handler_inv ps h =
     (length (hs_chains h) = length ps \<and>
      hs_completed h = length (filter settled (hs_chains h)) \<and>
      length (hs_results h) \<le> length ps \<and>
      (\<forall>i<length ps. settled (hs_chains h ! i) \<longrightarrow>
         i < length (hs_results h) \<and>
         (\<exists>r. hs_results h ! i = Some r \<and> ir_asset_tag r = rq_asset_tag (ps ! i)
                                         \<and> ir_serial r = rq_serial (ps ! i))) \<and>
      (\<forall>rs. hs_sent h = Some (Json rs) \<longrightarrow> aligned ps rs) \<and>
      (\<forall>msg. hs_sent h \<noteq> Some (Status400 msg)))"

text \<open>The fault-free environment.\<close>

definition no_faults :: "nat \<Rightarrow> db_fault" where
  "no_faults i = NoFault"

text \<open>What the claims call the AssetTag state: status and last_serial of a tag, without
  \<open>updated_at\<close>.\<close>

definition tag_view :: "server_db \<Rightarrow> string \<Rightarrow> (tag_status \<times> string option) option" where
  "tag_view db t = map_option (\<lambda>r. (tr_status r, tr_last_serial r)) (asset_tags db t)"

text \<open>\<open>status === 'ok_inserted' || status === 'ok_overwrite_same_pair'\<close>.\<close>

definition is_success :: "item_status \<Rightarrow> bool" where
  "is_success st = (st = ok_inserted \<or> st = ok_overwrite_same_pair)"

text \<open>The database after \<open>db.serialize\<close> at start-up: the five sample tags, no pairs.\<close>

definition seed_db :: "nat \<Rightarrow> server_db" where
  "seed_db t0 =
     \<lparr>asset_tags = map_of (map (\<lambda>t. (t, \<lparr>tr_status = unused, tr_last_serial = None,
                                            tr_updated_at = t0\<rparr>))
                         [''AT001'', ''AT002'', ''AT003'', ''AT004'', ''AT005'']),
      pairs_tbl = [], pairs_seq = 1\<rparr>"

text \<open>Two batches of two pairs, and two schedules for two chains: all tag lookups, then
  all pair lookups, then all inserts, then the updates, in request order or with the two
  updates the other way round.\<close>

definition duplicate_batch :: "pair_req list" where
  "duplicate_batch =
     [\<lparr>rq_asset_tag = ''AT001'', rq_serial = ''SN1'', rq_scanned_at = Some 5\<rparr>,
      \<lparr>rq_asset_tag = ''AT001'', rq_serial = ''SN1'', rq_scanned_at = Some 5\<rparr>]"

definition two_serials_batch :: "pair_req list" where
  "two_serials_batch =
     [\<lparr>rq_asset_tag = ''AT002'', rq_serial = ''SNA'', rq_scanned_at = Some 5\<rparr>,
      \<lparr>rq_asset_tag = ''AT002'', rq_serial = ''SNB'', rq_scanned_at = Some 6\<rparr>]"

definition by_rounds :: "nat list" where
  "by_rounds = [0, 1, 0, 1, 0, 1, 0, 1]"

definition by_rounds_updates_swapped :: "nat list" where
  "by_rounds_updates_swapped = [0, 1, 0, 1, 0, 1, 1, 0]"

definition duplicate_run :: "server_db \<times> http_reply option" where
  "duplicate_run =
     pairs_batch no_faults (\<lambda>k. 10 + k) ''admin'' by_rounds (seed_db 0) (PairArray duplicate_batch)"

definition first_submission :: "server_db \<times> http_reply option" where
  "first_submission =
     pairs_batch no_faults (\<lambda>k. 10 + k) ''admin'' by_rounds (seed_db 0)
       (PairArray two_serials_batch)"

definition second_submission :: "server_db \<times> http_reply option" where
  "second_submission =
     pairs_batch no_faults (\<lambda>k. 30 + k) ''admin'' by_rounds_updates_swapped
       (fst first_submission) (PairArray two_serials_batch)"


section \<open>Local store: db.ts\<close>

datatype pair_status = pending | uploaded | pair_error

record pair =
  p_id :: nat
  p_asset_tag :: string
  p_serial :: string
  p_scanned_at :: nat
  p_status :: pair_status

datatype batch_status = b_pending | b_uploading | b_done | b_error

record upload_batch =
  b_id :: nat
  b_items :: "pair list"
  b_status :: batch_status
  b_created_at :: nat
  b_error_message :: "string option"

record asset_tag =
  at_tag :: string
  at_status :: tag_status
  at_last_serial :: "string option"
  at_updated_at :: nat

record auth_token =
  tok_token :: string
  tok_username :: string
  tok_expires_at :: nat

text \<open>
  The four Dexie tables and the device clock. \<open>pairs\<close> and \<open>uploadQueue\<close> have
  autoincrement keys (\<open>++id\<close>) and are kept in key order; \<open>assetTags\<close> has one row per
  \<open>tag\<close>; \<open>authTokens\<close> holds at most the row with id \<open>'current'\<close>. Each
  \<open>new Date()\<close> takes the next reading of \<open>clock\<close>. Dexie operations are taken to
  succeed.
\<close>

record client =
  pairs :: "pair list"
  pairs_next :: nat
  uploadQueue :: "upload_batch list"
  queue_next :: nat
  assetTags :: "asset_tag list"
  authTokens :: "auth_token option"
  clock :: "nat \<Rightarrow> nat"
  clock_reads :: nat

definition date_now :: "client \<Rightarrow> nat \<times> client" where
  "date_now c = (clock c (clock_reads c), c\<lparr>clock_reads := Suc (clock_reads c)\<rparr>)"

definition addPair :: "client \<Rightarrow> string \<Rightarrow> string \<Rightarrow> client \<times> nat" where
  "addPair c asset_tag serial =
     (let (now, c1) = date_now c;
          row = \<lparr>p_id = pairs_next c1, p_asset_tag = asset_tag, p_serial = serial,
                 p_scanned_at = now, p_status = pending\<rparr>
      in (c1\<lparr>pairs := pairs c1 @ [row], pairs_next := Suc (pairs_next c1)\<rparr>, pairs_next c1))"

definition getPendingPairs :: "client \<Rightarrow> pair list" where
  "getPendingPairs c = filter (\<lambda>p. p_status p = pending) (pairs c)"

definition queueForUpload :: "client \<Rightarrow> pair list \<Rightarrow> client \<times> nat" where
  "queueForUpload c ps =
     (let (now, c1) = date_now c;
          batch = \<lparr>b_id = queue_next c1, b_items = ps, b_status = b_pending,
                   b_created_at = now, b_error_message = None\<rparr>
      in (c1\<lparr>uploadQueue := uploadQueue c1 @ [batch], queue_next := Suc (queue_next c1)\<rparr>,
          queue_next c1))"

text \<open>\<open>db.uploadQueue.where('status').equals('pending').toArray()\<close>: the rows whose
  status is \<open>pending\<close>, in primary-key order.\<close>

definition getPendingUploads :: "client \<Rightarrow> upload_batch list" where
  "getPendingUploads c = filter (\<lambda>b. b_status b = b_pending) (uploadQueue c)"

text \<open>\<open>Table.put\<close> on the table keyed by \<open>tag\<close>: replace the row with that key, or add
  one.\<close>

definition put_tag :: "asset_tag \<Rightarrow> asset_tag list \<Rightarrow> asset_tag list" where
  "put_tag a tbl =
     (if list_ex (\<lambda>b. at_tag b = at_tag a) tbl
      then map (\<lambda>b. if at_tag b = at_tag a then a else b) tbl
      else tbl @ [a])"

definition updateAssetTag :: "client \<Rightarrow> string \<Rightarrow> tag_status \<Rightarrow> string option \<Rightarrow> client" where
  "updateAssetTag c tag status last_serial =
     (let (now, c1) = date_now c
      in c1\<lparr>assetTags := put_tag \<lparr>at_tag = tag, at_status = status,
                                     at_last_serial = last_serial, at_updated_at = now\<rparr>
                                   (assetTags c1)\<rparr>)"

definition getAssetTag :: "client \<Rightarrow> string \<Rightarrow> asset_tag option" where
  "getAssetTag c tag = find (\<lambda>a. at_tag a = tag) (assetTags c)"

text \<open>The clock is read only when a token row exists; an expired row is deleted.\<close>

definition getCurrentAuthToken :: "client \<Rightarrow> auth_token option \<times> client" where
  "getCurrentAuthToken c =
     (case authTokens c of
        None \<Rightarrow> (None, c)
      | Some token \<Rightarrow>
          (let (now, c1) = date_now c
           in if tok_expires_at token \<le> now then (None, c1\<lparr>authTokens := None\<rparr>)
              else (Some token, c1)))"

text \<open>\<open>Table.update(key, changes)\<close> and \<open>Collection.modify(changes)\<close> on the rows
  selected; a key that is not in the table changes nothing.\<close>

definition update_pair_where :: "(pair \<Rightarrow> bool) \<Rightarrow> pair_status \<Rightarrow> client \<Rightarrow> client" where
  "update_pair_where sel st c =
     c\<lparr>pairs := map (\<lambda>p. if sel p then p\<lparr>p_status := st\<rparr> else p) (pairs c)\<rparr>"

definition update_batch :: "nat \<Rightarrow> (upload_batch \<Rightarrow> upload_batch) \<Rightarrow> client \<Rightarrow> client" where
  "update_batch key f c =
     c\<lparr>uploadQueue := map (\<lambda>b. if b_id b = key then f b else b) (uploadQueue c)\<rparr>"

text \<open>\<open>updatePairStatus\<close> changes the first row with that asset_tag and serial.\<close>

definition updatePairStatus :: "client \<Rightarrow> string \<Rightarrow> string \<Rightarrow> pair_status \<Rightarrow> client" where
  "updatePairStatus c asset_tag serial st =
     (case find (\<lambda>p. p_asset_tag p = asset_tag \<and> p_serial p = serial) (pairs c) of
        None \<Rightarrow> c
      | Some row \<Rightarrow> update_pair_where (\<lambda>p. p_id p = p_id row) st c)"

definition clearUserData :: "client \<Rightarrow> client" where
  "clearUserData c = c\<lparr>pairs := [], uploadQueue := [], authTokens := None\<rparr>"


section \<open>Remote client: ApiClient in api.ts\<close>

text \<open>
  What \<open>fetch\<close> does: it throws (a network fault, with the error's message), or it
  returns a response with a status code, the body as text, and the body parsed as JSON.
  The remote authority is a parameter: a function from its state, the bearer token sent
  and the request to its new state and the result.
\<close>

datatype 'a fetch_result = FetchThrows string | Response nat string 'a

fun dec :: "nat \<Rightarrow> string" where
  "dec n = (if n < 10 then [char_of (48 + n)] else dec (n div 10) @ [char_of (48 + n mod 10)])"

declare dec.simps [simp del]

text \<open>\<open>response.ok\<close>: the status is in the range 200 to 299.\<close>

definition ok_status :: "nat \<Rightarrow> bool" where
  "ok_status status = (200 \<le> status \<and> status \<le> 299)"

text \<open>\<open>token?.token || null\<close>, then \<open>if (token)\<close>: an empty token string sends no
  header.\<close>

definition bearer :: "auth_token option \<Rightarrow> string option" where
  "bearer t = (case t of None \<Rightarrow> None
               | Some tk \<Rightarrow> if tok_token tk = [] then None else Some (tok_token tk))"

text \<open>A thrown \<open>Error\<close> is its message, on the left of the sum.\<close>

definition makeRequest ::
  "('r \<Rightarrow> string option \<Rightarrow> 'q \<Rightarrow> 'r \<times> 'a fetch_result) \<Rightarrow> 'q \<Rightarrow> 'r \<times> client
     \<Rightarrow> ('r \<times> client) \<times> (string + 'a)" where
  "makeRequest fetch q rc =
     (let (r, c) = rc;
          (token, c1) = getCurrentAuthToken c;
          (r1, response) = fetch r (bearer token) q
      in case response of
           FetchThrows msg \<Rightarrow> ((r1, c1), Inl msg)
         | Response status txt body \<Rightarrow>
             if status = 401 then ((r1, clearUserData c1), Inl ''Authentication required'')
             else if \<not> ok_status status
               then ((r1, c1), Inl (''API Error: '' @ dec status @ '' - '' @ txt))
             else ((r1, c1), Inr body))"

definition uploadPairs ::
  "('r \<Rightarrow> string option \<Rightarrow> pair list \<Rightarrow> 'r \<times> item_result list fetch_result) \<Rightarrow> pair list
     \<Rightarrow> 'r \<times> client \<Rightarrow> ('r \<times> client) \<times> (string + item_result list)" where
  "uploadPairs fetch ps rc = makeRequest fetch ps rc"

definition getAssetTags ::
  "('r \<Rightarrow> string option \<Rightarrow> nat option \<Rightarrow> 'r \<times> asset_tag list fetch_result) \<Rightarrow> nat option
     \<Rightarrow> 'r \<times> client \<Rightarrow> ('r \<times> client) \<times> (string + asset_tag list)" where
  "getAssetTags fetch since rc = makeRequest fetch since rc"


section \<open>Sync coordinator: NetworkManager in api.ts\<close>

text \<open>The listeners are callbacks of the user interface and are not part of the model.\<close>

record network_manager =
  isOnline :: bool

text \<open>The first loop of a replay: the cache is updated for each successful result.\<close>

fun apply_results :: "client \<Rightarrow> item_result list \<Rightarrow> client" where
  "apply_results c [] = c"
| "apply_results c (r # rs) =
     apply_results
       (if is_success (ir_status r) then updateAssetTag c (ir_asset_tag r) used (Some (ir_serial r))
        else c) rs"

text \<open>The second loop: for each pair of the batch, \<open>results.find\<close> by asset_tag and
  serial, and on a successful result every local row with that asset_tag and serial is
  set to \<open>uploaded\<close>.\<close>

definition result_for :: "item_result list \<Rightarrow> pair \<Rightarrow> item_result option" where
  "result_for results pr =
     find (\<lambda>r. ir_asset_tag r = p_asset_tag pr \<and> ir_serial r = p_serial pr) results"

fun mark_uploaded :: "item_result list \<Rightarrow> pair list \<Rightarrow> client \<Rightarrow> client" where
  "mark_uploaded results [] c = c"
| "mark_uploaded results (pr # prs) c =
     mark_uploaded results prs
       (case result_for results pr of
          Some r \<Rightarrow>
            if is_success (ir_status r)
            then update_pair_where
                   (\<lambda>q. p_asset_tag q = p_asset_tag pr \<and> p_serial q = p_serial pr) uploaded c
            else c
        | None \<Rightarrow> c)"

text \<open>The body of \<open>for (const batch of pendingBatches)\<close>, with its \<open>try\<close> and
  \<open>catch\<close>.\<close>

definition replay_batch ::
  "('r \<Rightarrow> string option \<Rightarrow> pair list \<Rightarrow> 'r \<times> item_result list fetch_result) \<Rightarrow> upload_batch
     \<Rightarrow> 'r \<times> client \<Rightarrow> 'r \<times> client" where
  "replay_batch fetch batch rc =
     (let ((r1, c1), outcome) = uploadPairs fetch (b_items batch) rc
      in case outcome of
           Inr results \<Rightarrow>
             (r1, mark_uploaded results (b_items batch)
                    (update_batch (b_id batch) (\<lambda>b. b\<lparr>b_status := b_done\<rparr>)
                       (apply_results c1 results)))
         | Inl msg \<Rightarrow>
             (r1, update_batch (b_id batch)
                    (\<lambda>b. b\<lparr>b_status := b_error, b_error_message := Some msg\<rparr>) c1))"

definition processOfflineQueue ::
  "('r \<Rightarrow> string option \<Rightarrow> pair list \<Rightarrow> 'r \<times> item_result list fetch_result) \<Rightarrow> network_manager
     \<Rightarrow> 'r \<times> client \<Rightarrow> 'r \<times> client" where
  "processOfflineQueue fetch nm rc =
     (if \<not> isOnline nm then rc
      else fold (replay_batch fetch) (getPendingUploads (snd rc)) rc)"

text \<open>The handler of the window's \<open>online\<close> event.\<close>

definition on_online ::
  "('r \<Rightarrow> string option \<Rightarrow> pair list \<Rightarrow> 'r \<times> item_result list fetch_result) \<Rightarrow> network_manager
     \<Rightarrow> 'r \<times> client \<Rightarrow> network_manager \<times> 'r \<times> client" where
  "on_online fetch nm rc =
     (let nm' = nm\<lparr>isOnline := True\<rparr> in (nm', processOfflineQueue fetch nm' rc))"

text \<open>\<open>db.assetTags.orderBy('updated_at').last()?.updated_at\<close>: the greatest stored
  \<open>updated_at\<close>, if there is a row.\<close>

definition watermark :: "client \<Rightarrow> nat option" where
  "watermark c =
     (case assetTags c of [] \<Rightarrow> None
      | a # as \<Rightarrow> Some (fold max (map at_updated_at as) (at_updated_at a)))"

fun upsert_tags :: "client \<Rightarrow> asset_tag list \<Rightarrow> client" where
  "upsert_tags c [] = c"
| "upsert_tags c (t # ts) =
     upsert_tags (updateAssetTag c (at_tag t) (at_status t) (at_last_serial t)) ts"

definition syncAssetTags ::
  "('r \<Rightarrow> string option \<Rightarrow> nat option \<Rightarrow> 'r \<times> asset_tag list fetch_result) \<Rightarrow> network_manager
     \<Rightarrow> 'r \<times> client \<Rightarrow> 'r \<times> client" where
  "syncAssetTags fetch nm rc =
     (if \<not> isOnline nm then rc
      else let ((r1, c1), outcome) = getAssetTags fetch (watermark (snd rc)) rc
           in case outcome of
                Inr tags \<Rightarrow> (r1, upsert_tags c1 tags)
              | Inl msg \<Rightarrow> (r1, c1))"

text \<open>A remote wrapped so that every call and its result are appended to a log kept
  beside the remote's state.\<close>

definition logged ::
  "('r \<Rightarrow> string option \<Rightarrow> 'q \<Rightarrow> 'r \<times> 'a fetch_result)
     \<Rightarrow> 'r \<times> ('q \<times> 'a fetch_result) list \<Rightarrow> string option \<Rightarrow> 'q
     \<Rightarrow> ('r \<times> ('q \<times> 'a fetch_result) list) \<times> 'a fetch_result" where
  "logged fetch rl token q =
     (let (r1, response) = fetch (fst rl) token q
      in ((r1, snd rl @ [(q, response)]), response))"



section \<open>Pair lifecycle manager: the PairBuilder component\<close>

text \<open>
  Strings are their UTF-8 bytes. \<open>String.prototype.trim\<close> removes the white space and
  line terminators of ECMAScript at both ends: U+0009 to U+000D, U+0020, U+00A0, U+1680,
  U+2000 to U+200A, U+2028, U+2029, U+202F, U+205F, U+3000 and U+FEFF, here in their UTF-8
  encodings. In well-formed UTF-8 one of these byte sequences at the front or at the end
  of a string is that character.
\<close>

definition js_white_space :: "string list" where
  "js_white_space =
     [[CHR 0x09], [CHR 0x0A], [CHR 0x0B], [CHR 0x0C], [CHR 0x0D], [CHR 0x20],
      [CHR 0xC2, CHR 0xA0],
      [CHR 0xE1, CHR 0x9A, CHR 0x80],
      [CHR 0xE2, CHR 0x80, CHR 0x80], [CHR 0xE2, CHR 0x80, CHR 0x81],
      [CHR 0xE2, CHR 0x80, CHR 0x82], [CHR 0xE2, CHR 0x80, CHR 0x83],
      [CHR 0xE2, CHR 0x80, CHR 0x84], [CHR 0xE2, CHR 0x80, CHR 0x85],
      [CHR 0xE2, CHR 0x80, CHR 0x86], [CHR 0xE2, CHR 0x80, CHR 0x87],
      [CHR 0xE2, CHR 0x80, CHR 0x88], [CHR 0xE2, CHR 0x80, CHR 0x89],
      [CHR 0xE2, CHR 0x80, CHR 0x8A],
      [CHR 0xE2, CHR 0x80, CHR 0xA8], [CHR 0xE2, CHR 0x80, CHR 0xA9],
      [CHR 0xE2, CHR 0x80, CHR 0xAF],
      [CHR 0xE2, CHR 0x81, CHR 0x9F],
      [CHR 0xE3, CHR 0x80, CHR 0x80],
      [CHR 0xEF, CHR 0xBB, CHR 0xBF]]"

text \<open>Remove from the front of a string, as long as there is one, any of the given byte
  sequences.\<close>

fun strip_front :: "string list \<Rightarrow> string \<Rightarrow> string" where
  "strip_front ws [] = []"
| "strip_front ws (ch # cs) =
     (case find (\<lambda>w. w \<noteq> [] \<and> take (length w) (ch # cs) = w) ws of
        None \<Rightarrow> ch # cs
      | Some w \<Rightarrow> strip_front ws (drop (length w - 1) cs))"

definition trim :: "string \<Rightarrow> string" where
  "trim s = rev (strip_front (map rev js_white_space) (rev (strip_front js_white_space s)))"

text \<open>The component's state that admission reads and writes. The toast and the
  \<open>onPairAdded\<close> callback belong to the parent component; the timer that resets the
  form 1.5 s after a success is a later event.\<close>

record pair_builder =
  pb_assetTag :: string
  pb_serial :: string
  pb_error :: string
  pb_success :: string
  pb_isValidating :: bool
  pb_showMissingTagDialog :: bool

definition canAddPair :: "pair_builder \<Rightarrow> bool" where
  "canAddPair pb = (trim (pb_assetTag pb) \<noteq> [] \<and> trim (pb_serial pb) \<noteq> [])"

text \<open>The UTF-8 bytes of the check mark and of the arrow in the success message.\<close>

definition check_mark :: string where
  "check_mark = [CHR 0xE2, CHR 0x9C, CHR 0x85]"

definition arrow :: string where
  "arrow = [CHR 0xE2, CHR 0x86, CHR 0x92]"

definition validateAndAddPair :: "pair_builder \<times> client \<Rightarrow> pair_builder \<times> client" where
  "validateAndAddPair pc =
     (let (pb, c) = pc in
      if \<not> canAddPair pb
      then (pb\<lparr>pb_error := ''Both Asset Tag and Serial Number are required''\<rparr>, c)
      else
        let pb1 = pb\<lparr>pb_isValidating := True, pb_error := [], pb_success := []\<rparr> in
        case getAssetTag c (trim (pb_assetTag pb)) of
          None \<Rightarrow> (pb1\<lparr>pb_showMissingTagDialog := True, pb_isValidating := False\<rparr>, c)
        | Some assetTagInfo \<Rightarrow>
            if at_status assetTagInfo = used
               \<and> (case at_last_serial assetTagInfo of
                    None \<Rightarrow> False
                  | Some ls \<Rightarrow> ls \<noteq> [] \<and> ls \<noteq> trim (pb_serial pb))
            then (pb1\<lparr>pb_error := ''Asset tag already used with serial: ''
                                     @ the (at_last_serial assetTagInfo),
                       pb_isValidating := False\<rparr>, c)
            else
              let (c1, new_id) = addPair c (trim (pb_assetTag pb)) (trim (pb_serial pb))
              in (pb1\<lparr>pb_success := check_mark @ '' Pair saved: '' @ trim (pb_assetTag pb)
                                       @ '' '' @ arrow @ '' '' @ trim (pb_serial pb),
                       pb_isValidating := False\<rparr>, c1))"

text \<open>The two buttons of the missing-tag dialog: \<open>Yes, add tag\<close> and \<open>Cancel\<close>.\<close>

definition confirm_missing_tag :: "pair_builder \<times> client \<Rightarrow> pair_builder \<times> client" where
  "confirm_missing_tag pc =
     (let (pb, c) = pc
      in validateAndAddPair
           (pb\<lparr>pb_showMissingTagDialog := False\<rparr>,
            updateAssetTag c (trim (pb_assetTag pb)) unused None))"

definition cancel_missing_tag :: "pair_builder \<times> client \<Rightarrow> pair_builder \<times> client" where
  "cancel_missing_tag pc = (let (pb, c) = pc in (pb\<lparr>pb_showMissingTagDialog := False\<rparr>, c))"


section \<open>Notions used to state the properties of the client\<close>

text \<open>\<open>result && (result.status === 'ok_inserted' || result.status ===
  'ok_overwrite_same_pair')\<close> for the result found for a pair of the batch.\<close>

definition item_succeeded :: "item_result list \<Rightarrow> pair \<Rightarrow> bool" where
  "item_succeeded results pr =
     (case result_for results pr of Some res \<Rightarrow> is_success (ir_status res) | None \<Rightarrow> False)"

text \<open>The selection \<open>where({asset_tag, serial})\<close>.\<close>

definition same_key :: "pair \<Rightarrow> pair \<Rightarrow> bool" where
  "same_key q pr = (p_asset_tag q = p_asset_tag pr \<and> p_serial q = p_serial pr)"

text \<open>What a replay does to the status of its batch, as a function of what the remote
  answered: \<open>done\<close> when the call returned, \<open>error\<close> with the thrown message
  otherwise. \<open>settle_queue\<close> applies to each batch the answer recorded for its id.\<close>

definition is_401 :: "'a fetch_result \<Rightarrow> bool" where
  "is_401 resp = (case resp of Response status btxt body \<Rightarrow> status = 401 | FetchThrows msg \<Rightarrow> False)"

definition settle :: "'a fetch_result \<Rightarrow> upload_batch \<Rightarrow> upload_batch" where
  "settle resp b =
     (case resp of
        FetchThrows msg \<Rightarrow> b\<lparr>b_status := b_error, b_error_message := Some msg\<rparr>
      | Response status btxt body \<Rightarrow>
          if ok_status status then b\<lparr>b_status := b_done\<rparr>
          else b\<lparr>b_status := b_error,
                 b_error_message := Some (''API Error: '' @ dec status @ '' - '' @ btxt)\<rparr>)"

definition settle_queue ::
  "(nat \<times> 'a fetch_result) list \<Rightarrow> upload_batch list \<Rightarrow> upload_batch list" where
  "settle_queue answers queue =
     map (\<lambda>b. case map_of answers (b_id b) of None \<Rightarrow> b | Some resp \<Rightarrow> settle resp b) queue"

text \<open>A remote for the asset-tag listing whose records carry other \<open>updated_at\<close>
  values, given by \<open>g\<close>, and are otherwise those of \<open>fetch\<close>.\<close>

definition restamped ::
  "(asset_tag \<Rightarrow> nat)
     \<Rightarrow> ('r \<Rightarrow> string option \<Rightarrow> nat option \<Rightarrow> 'r \<times> asset_tag list fetch_result)
     \<Rightarrow> 'r \<Rightarrow> string option \<Rightarrow> nat option \<Rightarrow> 'r \<times> asset_tag list fetch_result" where
  "restamped g fetch r token since =
     (case fetch r token since of
        (r1, Response status btxt tags) \<Rightarrow>
          (r1, Response status btxt (map (\<lambda>a. a\<lparr>at_updated_at := g a\<rparr>) tags))
      | (r1, FetchThrows msg) \<Rightarrow> (r1, FetchThrows msg))"


section \<open>Example states and remotes\<close>

definition example_client :: client where
  "example_client =
     \<lparr>pairs = [\<lparr>p_id = 1, p_asset_tag = ''AT002'', p_serial = ''SN7'', p_scanned_at = 3,
                 p_status = pending\<rparr>],
      pairs_next = 2,
      uploadQueue = [],
      queue_next = 1,
      assetTags = [\<lparr>at_tag = ''AT001'', at_status = used, at_last_serial = Some ''SN1'',
                     at_updated_at = 2\<rparr>,
                   \<lparr>at_tag = ''AT002'', at_status = unused, at_last_serial = None,
                     at_updated_at = 2\<rparr>],
      authTokens = Some \<lparr>tok_token = ''jwt'', tok_username = ''admin'', tok_expires_at = 1000\<rparr>,
      clock = (\<lambda>k. 100 + k),
      clock_reads = 0\<rparr>"

definition form :: "string \<Rightarrow> string \<Rightarrow> pair_builder" where
  "form t s = \<lparr>pb_assetTag = t, pb_serial = s, pb_error = [], pb_success = [],
               pb_isValidating = False, pb_showMissingTagDialog = False\<rparr>"

definition reject_401 :: "nat \<Rightarrow> string option \<Rightarrow> 'q \<Rightarrow> nat \<times> 'a list fetch_result" where
  "reject_401 r token q = (Suc r, Response 401 ''Access token required'' [])"

definition serve_tags :: "nat \<Rightarrow> string option \<Rightarrow> nat option \<Rightarrow> nat \<times> asset_tag list fetch_result" where
  "serve_tags r token since =
     (Suc r, Response 200 []
        [\<lparr>at_tag = ''AT003'', at_status = used, at_last_serial = Some ''SN3'', at_updated_at = 7\<rparr>,
         \<lparr>at_tag = ''AT001'', at_status = used, at_last_serial = Some ''SN1'',
           at_updated_at = 9999\<rparr>])"

definition mixed_client :: client where
  "mixed_client =
     \<lparr>pairs = [\<lparr>p_id = 1, p_asset_tag = ''AT001'', p_serial = ''SN1'', p_scanned_at = 3,
                 p_status = pending\<rparr>,
               \<lparr>p_id = 2, p_asset_tag = ''AT999'', p_serial = ''SN9'', p_scanned_at = 4,
                 p_status = pending\<rparr>],
      pairs_next = 3,
      uploadQueue =
        [\<lparr>b_id = 1,
          b_items = [\<lparr>p_id = 1, p_asset_tag = ''AT001'', p_serial = ''SN1'', p_scanned_at = 3,
                      p_status = pending\<rparr>,
                     \<lparr>p_id = 2, p_asset_tag = ''AT999'', p_serial = ''SN9'', p_scanned_at = 4,
                      p_status = pending\<rparr>],
          b_status = b_pending, b_created_at = 5, b_error_message = None\<rparr>],
      queue_next = 2,
      assetTags = [\<lparr>at_tag = ''AT001'', at_status = unused, at_last_serial = None,
                     at_updated_at = 2\<rparr>],
      authTokens = Some \<lparr>tok_token = ''jwt'', tok_username = ''admin'', tok_expires_at = 1000\<rparr>,
      clock = (\<lambda>k. 100 + k),
      clock_reads = 0\<rparr>"

definition mixed_reply ::
  "nat \<Rightarrow> string option \<Rightarrow> pair list \<Rightarrow> nat \<times> item_result list fetch_result" where
  "mixed_reply r token items =
     (Suc r, Response 200 []
        (map (\<lambda>p. if p_asset_tag p = ''AT999''
                   then \<lparr>ir_status = missing_asset_tag, ir_asset_tag = p_asset_tag p,
                         ir_serial = p_serial p, ir_message = Some ''Asset tag not found''\<rparr>
                   else \<lparr>ir_status = ok_inserted, ir_asset_tag = p_asset_tag p,
                         ir_serial = p_serial p, ir_message = None\<rparr>) items))"

definition queue_client :: client where
  "queue_client =
     \<lparr>pairs = [\<lparr>p_id = 1, p_asset_tag = ''AT001'', p_serial = ''SN1'', p_scanned_at = 1,
                 p_status = pending\<rparr>,
               \<lparr>p_id = 2, p_asset_tag = ''AT002'', p_serial = ''SN2'', p_scanned_at = 2,
                 p_status = pending\<rparr>,
               \<lparr>p_id = 3, p_asset_tag = ''AT003'', p_serial = ''SN3'', p_scanned_at = 3,
                 p_status = pending\<rparr>],
      pairs_next = 4,
      uploadQueue =
        [\<lparr>b_id = 1,
          b_items = [\<lparr>p_id = 1, p_asset_tag = ''AT001'', p_serial = ''SN1'', p_scanned_at = 1,
                      p_status = pending\<rparr>],
          b_status = b_error, b_created_at = 4, b_error_message = Some ''Failed to fetch''\<rparr>,
         \<lparr>b_id = 2,
          b_items = [\<lparr>p_id = 2, p_asset_tag = ''AT002'', p_serial = ''SN2'', p_scanned_at = 2,
                      p_status = pending\<rparr>],
          b_status = b_pending, b_created_at = 5, b_error_message = None\<rparr>,
         \<lparr>b_id = 3,
          b_items = [\<lparr>p_id = 3, p_asset_tag = ''AT003'', p_serial = ''SN3'', p_scanned_at = 3,
                      p_status = pending\<rparr>],
          b_status = b_pending, b_created_at = 6, b_error_message = None\<rparr>],
      queue_next = 4,
      assetTags = [],
      authTokens = Some \<lparr>tok_token = ''jwt'', tok_username = ''admin'', tok_expires_at = 1000\<rparr>,
      clock = (\<lambda>k. 100 + k),
      clock_reads = 0\<rparr>"

definition flaky ::
  "nat \<Rightarrow> string option \<Rightarrow> pair list \<Rightarrow> nat \<times> item_result list fetch_result" where
  "flaky r token items =
     (Suc r,
      if r = 0 then FetchThrows ''Failed to fetch''
      else Response 200 []
             (map (\<lambda>p. \<lparr>ir_status = ok_inserted, ir_asset_tag = p_asset_tag p,
                         ir_serial = p_serial p, ir_message = None\<rparr>) items))"

definition queue_run :: "network_manager \<times> (nat \<times> (pair list \<times> item_result list fetch_result) list) \<times> client" where
  "queue_run = on_online (logged flaky) \<lparr>isOnline = False\<rparr> ((0, []), queue_client)"


section \<open>Properties of the remote merge\<close>

lemma run_statement_empty: "run_statement flt now user [] index h = h"
  by (simp add: run_statement_def)

lemma run_schedule_empty: "run_schedule flt clk user [] k sched h = h"
  by (induction sched arbitrary: k) (simp_all add: run_statement_empty)

lemmas batch_eval = pairs_batch_def batch_state_def run_statement_def settle_item_def js_set_def no_faults_def
  existingPair_def insert_or_replace_def update_asset_tag_used_def Let_def

lemma duplicate_run_reply:
  "snd duplicate_run = Some (Json
     [Some \<lparr>ir_status = ok_inserted, ir_asset_tag = ''AT001'', ir_serial = ''SN1'',
            ir_message = None\<rparr>,
      Some \<lparr>ir_status = ok_inserted, ir_asset_tag = ''AT001'', ir_serial = ''SN1'',
            ir_message = None\<rparr>])"
  by (simp add: duplicate_run_def batch_eval seed_db_def duplicate_batch_def by_rounds_def)


lemma length_js_set: "length (js_set xs i v) = max (length xs) (Suc i)"
  by (auto simp: js_set_def)

lemma nth_js_set_same: "js_set xs i v ! i = Some v"
  by (auto simp: js_set_def nth_append)

lemma nth_js_set_other: "j \<noteq> i \<Longrightarrow> j < length xs \<Longrightarrow> js_set xs i v ! j = xs ! j"
  by (auto simp: js_set_def nth_append)

lemma filter_length_update_same:
  "i < length xs \<Longrightarrow> P (xs ! i) = P c \<Longrightarrow> length (filter P (xs[i := c])) = length (filter P xs)"
proof (induction xs arbitrary: i)
  case Nil
  then show ?case by simp
next
  case (Cons x xs)
  then show ?case by (cases i) auto
qed

lemma filter_length_update_new:
  "i < length xs \<Longrightarrow> \<not> P (xs ! i) \<Longrightarrow> P c \<Longrightarrow>
   length (filter P (xs[i := c])) = Suc (length (filter P xs))"
proof (induction xs arbitrary: i)
  case Nil
  then show ?case by simp
next
  case (Cons x xs)
  then show ?case by (cases i) auto
qed

lemma filter_length_full:
  "length (filter P xs) = length xs \<Longrightarrow> i < length xs \<Longrightarrow> P (xs ! i)"
proof (induction xs arbitrary: i)
  case Nil
  then show ?case by simp
next
  case (Cons x xs)
  have le: "length (filter P xs) \<le> length xs" by simp
  show ?case
  proof (cases "P x")
    case True
    with Cons.prems have "length (filter P xs) = length xs" by simp
    with Cons.IH Cons.prems(2) True show ?thesis by (cases i) auto
  next
    case False
    with Cons.prems(1) le show ?thesis by simp
  qed
qed

text \<open>A chain that only moves on to its next lookup or finishes its update.\<close>

lemma handler_inv_move:
  assumes "handler_inv ps h" and "index < length ps"
    and "settled (hs_chains h ! index) = settled ch"
  shows "handler_inv ps (h\<lparr>hs_chains := (hs_chains h)[index := ch]\<rparr>)"
  using assms
  by (auto simp: handler_inv_def filter_length_update_same nth_list_update)

lemma handler_inv_db: "handler_inv ps (h\<lparr>hs_db := db\<rparr>) = handler_inv ps h"
  by (simp add: handler_inv_def)

lemma handler_inv_settle:
  assumes inv: "handler_inv ps h" and i: "index < length ps"
    and un: "\<not> settled (hs_chains h ! index)" and st: "settled ch"
    and echo: "ir_asset_tag r = rq_asset_tag (ps ! index)" "ir_serial r = rq_serial (ps ! index)"
  shows "handler_inv ps (settle_item (length ps) index r ch h)"
proof -
  let ?cs = "(hs_chains h)[index := ch]"
  let ?rs = "js_set (hs_results h) index r"
  from inv have len: "length (hs_chains h) = length ps"
    and cnt: "hs_completed h = length (filter settled (hs_chains h))"
    and rl: "length (hs_results h) \<le> length ps"
    and ent: "\<And>j. j < length ps \<Longrightarrow> settled (hs_chains h ! j) \<Longrightarrow>
         j < length (hs_results h) \<and>
         (\<exists>r. hs_results h ! j = Some r \<and> ir_asset_tag r = rq_asset_tag (ps ! j)
                                         \<and> ir_serial r = rq_serial (ps ! j))"
    and snt: "\<And>rs. hs_sent h = Some (Json rs) \<Longrightarrow> aligned ps rs"
    and no400: "\<And>msg. hs_sent h \<noteq> Some (Status400 msg)"
    by (auto simp: handler_inv_def)
  have cnt': "Suc (hs_completed h) = length (filter settled ?cs)"
    using filter_length_update_new[of index "hs_chains h" settled ch] i len un st cnt by simp
  have rl': "length ?rs \<le> length ps" using rl i by (simp add: length_js_set)
  have ent': "j < length ?rs \<and>
         (\<exists>r'. ?rs ! j = Some r' \<and> ir_asset_tag r' = rq_asset_tag (ps ! j)
                                  \<and> ir_serial r' = rq_serial (ps ! j))"
    if "j < length ps" "settled (?cs ! j)" for j
  proof (cases "j = index")
    case True
    then show ?thesis using echo by (simp add: length_js_set nth_js_set_same)
  next
    case False
    with that len have "settled (hs_chains h ! j)" by simp
    from ent[OF that(1) this] False show ?thesis
      by (auto simp: length_js_set nth_js_set_other)
  qed
  have full: "aligned ps ?rs" if "Suc (hs_completed h) = length ps"
  proof -
    have all: "settled (?cs ! j)" if "j < length ps" for j
      using filter_length_full[of settled ?cs j] cnt' \<open>Suc (hs_completed h) = length ps\<close> len that
      by simp
    have "length ps \<le> length ?rs"
    proof (cases ps)
      case Nil
      then show ?thesis by simp
    next
      case (Cons a list)
      then have "length ps - 1 < length ps" by simp
      from ent'[OF this all[OF this]] have "length ps - 1 < length ?rs" by simp
      then show ?thesis by arith
    qed
    with rl' have "length ?rs = length ps" by simp
    with ent' all show ?thesis by (auto simp: aligned_def)
  qed
  show ?thesis
    unfolding handler_inv_def settle_item_def Let_def
    using len cnt' rl' ent' full snt no400 by auto
qed


lemma handler_inv_run_statement:
  assumes "handler_inv ps h"
  shows "handler_inv ps (run_statement flt now user ps index h)"
proof (cases "length ps \<le> index")
  case True
  with assms show ?thesis by (simp add: run_statement_def)
next
  case False
  then have i: "index < length ps" by simp
  show ?thesis
  proof (cases "hs_chains h ! index")
    case AtTagLookup
    then have un: "\<not> settled (hs_chains h ! index)" by (simp add: settled_def)
    show ?thesis
      using AtTagLookup i
        handler_inv_settle[OF assms i un, of Finished]
        handler_inv_move[OF assms i, of AtPairLookup]
      by (auto simp: run_statement_def Let_def settled_def split: option.splits)
  next
    case AtPairLookup
    then have un: "\<not> settled (hs_chains h ! index)" by (simp add: settled_def)
    show ?thesis
      using AtPairLookup i
        handler_inv_settle[OF assms i un, of Finished]
        handler_inv_move[OF assms i, of "AtInsert st at" for st at]
      by (auto simp: run_statement_def Let_def settled_def)
  next
    case (AtInsert status at)
    then have un: "\<not> settled (hs_chains h ! index)" by (simp add: settled_def)
    let ?h1 = "h\<lparr>hs_db := insert_or_replace (hs_db h) (rq_asset_tag (ps ! index))
                 (rq_serial (ps ! index)) user at\<rparr>"
    have inv1: "handler_inv ps ?h1" using assms by (simp add: handler_inv_db)
    have un1: "\<not> settled (hs_chains ?h1 ! index)" using un by simp
    show ?thesis
      using AtInsert i
        handler_inv_settle[OF assms i un, of Finished]
        handler_inv_settle[OF inv1 i un1, of AtUpdate]
      by (auto simp: run_statement_def Let_def settled_def)
  next
    case AtUpdate
    let ?h1 = "h\<lparr>hs_db := update_asset_tag_used (hs_db h) (rq_asset_tag (ps ! index))
                 (rq_serial (ps ! index)) now\<rparr>"
    have inv1: "handler_inv ps ?h1" using assms by (simp add: handler_inv_db)
    have "handler_inv ps (?h1\<lparr>hs_chains := (hs_chains ?h1)[index := Finished]\<rparr>)"
      using AtUpdate by (intro handler_inv_move[OF inv1 i]) (simp add: settled_def)
    with AtUpdate i show ?thesis
      by (simp add: run_statement_def Let_def)
  next
    case Finished
    with assms i show ?thesis by (simp add: run_statement_def Let_def)
  qed
qed

lemma handler_inv_run_schedule:
  "handler_inv ps h \<Longrightarrow> handler_inv ps (run_schedule flt clk user ps k sched h)"
  by (induction sched arbitrary: k h) (simp_all add: handler_inv_run_statement)

lemma handler_inv_start:
  "handler_inv ps \<lparr>hs_db = db, hs_chains = replicate (length ps) AtTagLookup,
                    hs_results = [], hs_completed = 0, hs_sent = None\<rparr>"
  by (simp add: handler_inv_def settled_def)

text \<open>Whatever the schedule and whatever statements fail, a reply to an array of pairs
  is an array with one entry per pair, none a hole, the entry at each index naming the
  asset_tag and serial of the pair at that index.\<close>

lemma pairs_batch_reply_aligned:
  assumes "pairs_batch flt clk user sched db (PairArray ps) = (db', Some reply)"
  shows "\<exists>rs. reply = Json rs \<and> aligned ps rs"
proof -
  let ?h = "run_schedule flt clk user ps 0 sched
              \<lparr>hs_db = db, hs_chains = replicate (length ps) AtTagLookup,
               hs_results = [], hs_completed = 0, hs_sent = None\<rparr>"
  have inv: "handler_inv ps ?h"
    by (rule handler_inv_run_schedule[OF handler_inv_start])
  from assms have sent: "hs_sent ?h = Some reply"
    by (simp add: pairs_batch_def batch_state_def Let_def)
  show ?thesis
  proof (cases reply)
    case (Status400 msg)
    with inv sent show ?thesis by (simp add: handler_inv_def)
  next
    case (Json rs)
    with inv sent show ?thesis by (simp add: handler_inv_def)
  qed
qed


lemma duplicate_run_pairs:
  "pairs_tbl (fst duplicate_run) =
     [\<lparr>pr_id = 2, pr_asset_tag = ''AT001'', pr_serial = ''SN1'', pr_assigned_by = ''admin'',
       pr_assigned_at = 5\<rparr>]"
  by (simp add: duplicate_run_def batch_eval seed_db_def duplicate_batch_def by_rounds_def)

lemma first_submission_reply:
  "snd first_submission = Some (Json
     [Some \<lparr>ir_status = ok_inserted, ir_asset_tag = ''AT002'', ir_serial = ''SNA'',
            ir_message = None\<rparr>,
      Some \<lparr>ir_status = ok_inserted, ir_asset_tag = ''AT002'', ir_serial = ''SNB'',
            ir_message = None\<rparr>])"
  by (simp add: first_submission_def batch_eval seed_db_def two_serials_batch_def by_rounds_def)

lemma first_submission_pairs:
  "pairs_tbl (fst first_submission) =
     [\<lparr>pr_id = 1, pr_asset_tag = ''AT002'', pr_serial = ''SNA'', pr_assigned_by = ''admin'',
       pr_assigned_at = 5\<rparr>,
      \<lparr>pr_id = 2, pr_asset_tag = ''AT002'', pr_serial = ''SNB'', pr_assigned_by = ''admin'',
       pr_assigned_at = 6\<rparr>]"
  by (simp add: first_submission_def batch_eval seed_db_def two_serials_batch_def by_rounds_def)

lemma first_submission_tag:
  "asset_tags (fst first_submission) ''AT002'' =
     Some \<lparr>tr_status = used, tr_last_serial = Some ''SNB'', tr_updated_at = 17\<rparr>"
  by (simp add: first_submission_def batch_eval seed_db_def two_serials_batch_def by_rounds_def)

lemma second_submission_reply:
  "snd second_submission = Some (Json
     [Some \<lparr>ir_status = ok_overwrite_same_pair, ir_asset_tag = ''AT002'', ir_serial = ''SNA'',
            ir_message = None\<rparr>,
      Some \<lparr>ir_status = ok_overwrite_same_pair, ir_asset_tag = ''AT002'', ir_serial = ''SNB'',
            ir_message = None\<rparr>])"
  by (simp add: second_submission_def batch_eval two_serials_batch_def
      by_rounds_updates_swapped_def first_submission_pairs first_submission_tag)

lemma second_submission_tag:
  "asset_tags (fst second_submission) ''AT002'' =
     Some \<lparr>tr_status = used, tr_last_serial = Some ''SNA'', tr_updated_at = 37\<rparr>"
  by (simp add: second_submission_def batch_eval two_serials_batch_def
      by_rounds_updates_swapped_def first_submission_pairs first_submission_tag)

lemma duplicate_run_chains:
  "hs_chains (batch_state no_faults (\<lambda>k. 10 + k) ''admin'' by_rounds (seed_db 0) duplicate_batch)
     = [Finished, Finished]"
  by (simp add: batch_eval seed_db_def duplicate_batch_def by_rounds_def)

lemma duplicate_run_midway:
  "existingPair (hs_db (batch_state no_faults (\<lambda>k. 10 + k) ''admin'' (take 5 by_rounds)
       (seed_db 0) duplicate_batch)) ''AT001'' ''SN1''"
  "hs_chains (batch_state no_faults (\<lambda>k. 10 + k) ''admin'' (take 5 by_rounds)
       (seed_db 0) duplicate_batch) = [AtUpdate, AtInsert ok_inserted 5]"
  by (simp_all add: batch_eval seed_db_def duplicate_batch_def by_rounds_def)

lemma submission_chains:
  "hs_chains (batch_state no_faults (\<lambda>k. 10 + k) ''admin'' by_rounds (seed_db 0)
       two_serials_batch) = [Finished, Finished]"
  "hs_chains (batch_state no_faults (\<lambda>k. 30 + k) ''admin'' by_rounds_updates_swapped
       (fst first_submission) two_serials_batch) = [Finished, Finished]"
  by (simp_all add: batch_eval seed_db_def two_serials_batch_def by_rounds_def
      by_rounds_updates_swapped_def first_submission_pairs first_submission_tag)


subsection \<open>Claims about the remote merge\<close>

text \<open>
  Claim C3. For an item whose asset tag exists, the outcome is to be
  \<open>ok_overwrite_same_pair\<close> exactly when a record with the same asset_tag and serial
  already existed. The handler does not do this for a pair that occurs twice in one
  batch: on the seeded database, which has the tag and no pair, with the statements run
  round by round (both tag lookups, both pair lookups, both inserts, both updates), both
  items are answered \<open>ok_inserted\<close>, although the record existed when the insert of
  the second was about to run (after five statements) and that insert replaced it: the
  one row left has id 2.
\<close>

theorem duplicate_pair_reported_inserted:
  "duplicate_batch ! 0 = duplicate_batch ! 1 \<and>
   \<not> existingPair (seed_db 0) ''AT001'' ''SN1'' \<and>
   existingPair (hs_db (batch_state no_faults (\<lambda>k. 10 + k) ''admin'' (take 5 by_rounds)
       (seed_db 0) duplicate_batch)) ''AT001'' ''SN1'' \<and>
   hs_chains (batch_state no_faults (\<lambda>k. 10 + k) ''admin'' (take 5 by_rounds)
       (seed_db 0) duplicate_batch) = [AtUpdate, AtInsert ok_inserted 5] \<and>
   hs_chains (batch_state no_faults (\<lambda>k. 10 + k) ''admin'' by_rounds (seed_db 0) duplicate_batch)
     = [Finished, Finished] \<and>
   snd duplicate_run = Some (Json
     [Some \<lparr>ir_status = ok_inserted, ir_asset_tag = ''AT001'', ir_serial = ''SN1'',
            ir_message = None\<rparr>,
      Some \<lparr>ir_status = ok_inserted, ir_asset_tag = ''AT001'', ir_serial = ''SN1'',
            ir_message = None\<rparr>]) \<and>
   map pr_id (pairs_tbl (fst duplicate_run)) = [2]"
  using duplicate_run_reply duplicate_run_pairs duplicate_run_chains duplicate_run_midway
  by (simp add: duplicate_batch_def seed_db_def existingPair_def)

text \<open>
  Claim C4. Submitting a batch a second time is to leave status and last_serial of every
  asset tag as the first submission left them. The handler does not do this for a batch
  with two serials for one tag: the two updates of a submission run in either order, so
  the first submission can end with last_serial \<open>SNB\<close> and the second, on the database
  the first left and with every item answered \<open>ok_overwrite_same_pair\<close>, with
  \<open>SNA\<close>.
\<close>

theorem resubmission_changes_last_serial:
  "hs_chains (batch_state no_faults (\<lambda>k. 10 + k) ''admin'' by_rounds (seed_db 0)
       two_serials_batch) = [Finished, Finished] \<and>
   hs_chains (batch_state no_faults (\<lambda>k. 30 + k) ''admin'' by_rounds_updates_swapped
       (fst first_submission) two_serials_batch) = [Finished, Finished] \<and>
   tag_view (fst first_submission) ''AT002'' = Some (used, Some ''SNB'') \<and>
   tag_view (fst second_submission) ''AT002'' = Some (used, Some ''SNA'') \<and>
   snd first_submission = Some (Json
     [Some \<lparr>ir_status = ok_inserted, ir_asset_tag = ''AT002'', ir_serial = ''SNA'',
            ir_message = None\<rparr>,
      Some \<lparr>ir_status = ok_inserted, ir_asset_tag = ''AT002'', ir_serial = ''SNB'',
            ir_message = None\<rparr>]) \<and>
   snd second_submission = Some (Json
     [Some \<lparr>ir_status = ok_overwrite_same_pair, ir_asset_tag = ''AT002'', ir_serial = ''SNA'',
            ir_message = None\<rparr>,
      Some \<lparr>ir_status = ok_overwrite_same_pair, ir_asset_tag = ''AT002'', ir_serial = ''SNB'',
            ir_message = None\<rparr>])"
  using first_submission_reply second_submission_reply submission_chains
  by (simp add: tag_view_def first_submission_tag second_submission_tag)

text \<open>
  Claim C5. The reply to a batch of N items is an array of N entries aligned with the
  request. The handler does not do this for N = 0: for the empty array on the seeded
  database, whatever the schedule, what it has sent is not the empty array.
\<close>

theorem pairs_batch_empty_array_unanswered:
  "snd (pairs_batch no_faults (\<lambda>k. 0) ''admin'' sched (seed_db 0) (PairArray [])) \<noteq> Some (Json [])"
  by (simp add: pairs_batch_def batch_state_def run_schedule_empty)

text \<open>
  Claim C9. For an empty array of pairs the handler never sends a reply: the test that
  triggers the reply is inside the callbacks of the pairs' statements, of which there
  are none, so nothing is sent and the database is unchanged, whatever the schedule.
\<close>

theorem pairs_batch_empty_no_reply:
  "pairs_batch flt clk user sched db (PairArray []) = (db, None)"
  by (simp add: pairs_batch_def batch_state_def run_schedule_empty)
section \<open>Properties of the client\<close>

lemma dec_examples: "dec 7 = ''7''" "dec 404 = ''404''" "dec 500 = ''500''"
  by code_simp+

lemma trim_examples:
  "trim '' AT001  '' = ''AT001''" "trim ''   '' = []" "trim ''a b'' = ''a b''"
  "trim ([CHR 0xC2, CHR 0xA0] @ ''AT001'') = ''AT001''"
  "trim (''SN1'' @ [CHR 0xC2, CHR 0xA0]) = ''SN1''"
  "trim ([CHR 0xEF, CHR 0xBB, CHR 0xBF, CHR 0x0A] @ ''SN1'' @ [CHR 0xE2, CHR 0x80, CHR 0xA8, CHR 0x09])
     = ''SN1''"
  by (simp_all add: trim_def js_white_space_def)

lemma clearUserData_fields [simp]:
  "pairs (clearUserData c) = []" "uploadQueue (clearUserData c) = []"
  "authTokens (clearUserData c) = None" "assetTags (clearUserData c) = assetTags c"
  "clock (clearUserData c) = clock c" "clock_reads (clearUserData c) = clock_reads c"
  by (simp_all add: clearUserData_def)

lemma getCurrentAuthToken_keeps:
  "assetTags (snd (getCurrentAuthToken c)) = assetTags c"
  "pairs (snd (getCurrentAuthToken c)) = pairs c"
  "uploadQueue (snd (getCurrentAuthToken c)) = uploadQueue c"
  "clock (snd (getCurrentAuthToken c)) = clock c"
  by (simp_all add: getCurrentAuthToken_def date_now_def Let_def split: option.splits)

text \<open>
  Claim C8. When the response to an authenticated call has status 401, the remote having
  been called once, \<open>makeRequest\<close> clears the pairs, the upload queue and the auth
  token, leaves the asset-tag cache as it was, and throws the error
  \<open>Authentication required\<close>; it makes no second call.
\<close>

theorem makeRequest_401:
  assumes "fetch r (bearer (fst (getCurrentAuthToken c))) q = (r1, Response 401 txt body)"
  shows "\<exists>c'. makeRequest fetch q (r, c) = ((r1, c'), Inl ''Authentication required'') \<and>
           pairs c' = [] \<and> uploadQueue c' = [] \<and> authTokens c' = None \<and>
           assetTags c' = assetTags c"
proof -
  obtain token c1 where g: "getCurrentAuthToken c = (token, c1)"
    by (cases "getCurrentAuthToken c")
  with assms have "makeRequest fetch q (r, c) =
      ((r1, clearUserData c1), Inl ''Authentication required'')"
    by (simp add: makeRequest_def)
  moreover from g getCurrentAuthToken_keeps(1)[of c] have "assetTags c1 = assetTags c" by simp
  ultimately show ?thesis by simp
qed

theorem makeRequest_401_witness:
  "makeRequest reject_401 [] (0, example_client) =
     ((1, clearUserData (example_client\<lparr>clock_reads := 1\<rparr>)), Inl ''Authentication required'')
   \<and> pairs example_client \<noteq> []
   \<and> pairs (clearUserData (example_client\<lparr>clock_reads := 1\<rparr>)) = []
   \<and> assetTags (clearUserData (example_client\<lparr>clock_reads := 1\<rparr>)) = assetTags example_client"
proof -
  have tok: "getCurrentAuthToken example_client =
     (authTokens example_client, example_client\<lparr>clock_reads := 1\<rparr>)"
    by (simp add: getCurrentAuthToken_def example_client_def date_now_def)
  have "reject_401 (0::nat) (bearer (fst (getCurrentAuthToken example_client))) ([]::pair list)
          = (1, Response 401 ''Access token required'' ([]::item_result list))"
    by (simp add: reject_401_def)
  from makeRequest_401[where fetch = reject_401 and r = 0 and c = example_client
      and q = "[]::pair list", OF this] tok
  show ?thesis by (auto simp: makeRequest_def reject_401_def example_client_def)
qed


lemma find_append_asset:
  "find P (xs @ ys) = (case find P xs of None \<Rightarrow> find P ys | Some x \<Rightarrow> Some x)"
  by (induction xs) auto

lemma find_None_list_ex: "\<not> list_ex P xs \<Longrightarrow> find P xs = None"
  by (induction xs) auto

lemma find_replaced_same:
  "find (\<lambda>b. at_tag b = at_tag a) (map (\<lambda>b. if at_tag b = at_tag a then a else b) xs) =
     (if list_ex (\<lambda>b. at_tag b = at_tag a) xs then Some a else None)"
  by (induction xs) auto

lemma find_replaced_other:
  "at_tag a \<noteq> t \<Longrightarrow>
   find (\<lambda>b. at_tag b = t) (map (\<lambda>b. if at_tag b = at_tag a then a else b) xs) =
     find (\<lambda>b. at_tag b = t) xs"
  by (induction xs) auto

lemma find_put_tag:
  "find (\<lambda>b. at_tag b = t) (put_tag a tbl) =
     (if at_tag a = t then Some a else find (\<lambda>b. at_tag b = t) tbl)"
proof (cases "at_tag a = t")
  case True
  then show ?thesis
    using find_replaced_same[of a tbl] find_None_list_ex[of "\<lambda>b. at_tag b = at_tag a" tbl]
    by (auto simp: put_tag_def find_append_asset)
next
  case False
  then show ?thesis
    by (auto simp: put_tag_def find_append_asset find_replaced_other split: option.splits)
qed

lemma getAssetTag_updateAssetTag:
  "getAssetTag (updateAssetTag c tag st ls) t =
     (if tag = t then Some \<lparr>at_tag = tag, at_status = st, at_last_serial = ls,
                             at_updated_at = clock c (clock_reads c)\<rparr>
      else getAssetTag c t)"
  by (simp add: getAssetTag_def updateAssetTag_def date_now_def find_put_tag)

lemma updateAssetTag_fields [simp]:
  "pairs (updateAssetTag c tag st ls) = pairs c"
  "pairs_next (updateAssetTag c tag st ls) = pairs_next c"
  "uploadQueue (updateAssetTag c tag st ls) = uploadQueue c"
  "authTokens (updateAssetTag c tag st ls) = authTokens c"
  "clock (updateAssetTag c tag st ls) = clock c"
  "clock_reads (updateAssetTag c tag st ls) = Suc (clock_reads c)"
  by (simp_all add: updateAssetTag_def date_now_def)

lemma addPair_fields [simp]:
  "pairs (fst (addPair c t s)) =
     pairs c @ [\<lparr>p_id = pairs_next c, p_asset_tag = t, p_serial = s,
                 p_scanned_at = clock c (clock_reads c), p_status = pending\<rparr>]"
  "assetTags (fst (addPair c t s)) = assetTags c"
  "uploadQueue (fst (addPair c t s)) = uploadQueue c"
  "authTokens (fst (addPair c t s)) = authTokens c"
  by (simp_all add: addPair_def date_now_def)

text \<open>
  Claim C6. Admission of a pair with both fields non-blank, when the cache holds the
  (trimmed) asset tag with status \<open>used\<close> and a non-empty last_serial: if last_serial
  differs from the (trimmed) submitted serial, the store is unchanged (no pair row is
  created) and the error shown is \<open>Asset tag already used with serial: \<close> followed by
  the existing serial; if it is equal, a new pending pair is appended and no error is
  shown.
\<close>

theorem validateAndAddPair_used_tag:
  assumes "canAddPair pb"
    and "getAssetTag c (trim (pb_assetTag pb)) = Some info"
    and "at_status info = used" and "at_last_serial info = Some ls" and "ls \<noteq> []"
  shows "(ls \<noteq> trim (pb_serial pb) \<longrightarrow>
            snd (validateAndAddPair (pb, c)) = c \<and>
            pb_error (fst (validateAndAddPair (pb, c))) =
              ''Asset tag already used with serial: '' @ ls) \<and>
         (ls = trim (pb_serial pb) \<longrightarrow>
            pairs (snd (validateAndAddPair (pb, c))) =
              pairs c @ [\<lparr>p_id = pairs_next c, p_asset_tag = trim (pb_assetTag pb),
                          p_serial = trim (pb_serial pb),
                          p_scanned_at = clock c (clock_reads c), p_status = pending\<rparr>] \<and>
            assetTags (snd (validateAndAddPair (pb, c))) = assetTags c \<and>
            pb_error (fst (validateAndAddPair (pb, c))) = [])"
  using assms
  by (auto simp: validateAndAddPair_def Let_def case_prod_beta)

lemma trim_plain [simp]: "trim ''AT001'' = ''AT001''" "trim ''SN1'' = ''SN1''" "trim ''SN2'' = ''SN2''"
  "trim ''AT999'' = ''AT999''"
  "trim [CHR 0xC2, CHR 0xA0, CHR ''A'', CHR ''T'', CHR ''0'', CHR ''0'', CHR ''1''] = ''AT001''"
  "trim [CHR ''S'', CHR ''N'', CHR ''1'', CHR 0xC2, CHR 0xA0] = ''SN1''"
  by (simp_all add: trim_def js_white_space_def)

theorem validateAndAddPair_used_tag_witness:
  "snd (validateAndAddPair (form ''AT001'' ''SN2'', example_client)) = example_client \<and>
   pb_error (fst (validateAndAddPair (form ''AT001'' ''SN2'', example_client))) =
     ''Asset tag already used with serial: SN1'' \<and>
   pairs (snd (validateAndAddPair (form ''AT001'' ''SN1'', example_client))) =
     pairs example_client @ [\<lparr>p_id = 2, p_asset_tag = ''AT001'', p_serial = ''SN1'',
                               p_scanned_at = 100, p_status = pending\<rparr>] \<and>
   pb_error (fst (validateAndAddPair (form ''AT001'' ''SN1'', example_client))) = [] \<and>
   pairs (snd (validateAndAddPair
       (form [CHR 0xC2, CHR 0xA0, CHR ''A'', CHR ''T'', CHR ''0'', CHR ''0'', CHR ''1'']
             [CHR ''S'', CHR ''N'', CHR ''1'', CHR 0xC2, CHR 0xA0], example_client))) =
     pairs example_client @ [\<lparr>p_id = 2, p_asset_tag = ''AT001'', p_serial = ''SN1'',
                               p_scanned_at = 100, p_status = pending\<rparr>]"
proof -
  let ?info = "\<lparr>at_tag = ''AT001'', at_status = used, at_last_serial = Some ''SN1'',
                 at_updated_at = 2\<rparr>"
  let ?nbsp_tag = "[CHR 0xC2, CHR 0xA0, CHR ''A'', CHR ''T'', CHR ''0'', CHR ''0'', CHR ''1'']"
  let ?nbsp_serial = "[CHR ''S'', CHR ''N'', CHR ''1'', CHR 0xC2, CHR 0xA0]"
  have can: "canAddPair (form t s)" if "trim t = ''AT001''" "trim s \<noteq> []" for t s
    using that by (simp add: canAddPair_def form_def)
  have look: "getAssetTag example_client (trim (pb_assetTag (form t s))) = Some ?info"
    if "trim t = ''AT001''" for t s
    using that by (simp add: getAssetTag_def example_client_def form_def)
  have a: "canAddPair (form ''AT001'' ''SN2'')" and b: "canAddPair (form ''AT001'' ''SN1'')"
    and c: "canAddPair (form ?nbsp_tag ?nbsp_serial)"
    by (simp_all add: can)
  from validateAndAddPair_used_tag[OF a look, of "''SN1''"]
       validateAndAddPair_used_tag[OF b look, of "''SN1''"]
       validateAndAddPair_used_tag[OF c look, of "''SN1''"]
  show ?thesis
    by (simp add: form_def example_client_def)
qed


lemma nbsp_tag_is_found:
  "getAssetTag example_client
     (trim [CHR 0xC2, CHR 0xA0, CHR ''A'', CHR ''T'', CHR ''0'', CHR ''0'', CHR ''1'']) \<noteq> None"
  by (simp add: getAssetTag_def example_client_def)

text \<open>
  Claim C7. Admission of a pair with both fields non-blank whose asset tag is absent from
  the cache leaves the store unchanged (no pair row, no tag registered) and opens the
  confirmation dialog; cancelling leaves the store unchanged; confirming registers the
  tag as \<open>unused\<close> with no last_serial and re-runs admission, which appends the new
  pending pair without error.
\<close>

theorem unknown_tag_flow:
  assumes "canAddPair pb" and "getAssetTag c (trim (pb_assetTag pb)) = None"
  shows "snd (validateAndAddPair (pb, c)) = c \<and>
         pb_showMissingTagDialog (fst (validateAndAddPair (pb, c))) \<and>
         snd (cancel_missing_tag (validateAndAddPair (pb, c))) = c \<and>
         getAssetTag (snd (confirm_missing_tag (validateAndAddPair (pb, c))))
             (trim (pb_assetTag pb)) =
           Some \<lparr>at_tag = trim (pb_assetTag pb), at_status = unused, at_last_serial = None,
                  at_updated_at = clock c (clock_reads c)\<rparr> \<and>
         pairs (snd (confirm_missing_tag (validateAndAddPair (pb, c)))) =
           pairs c @ [\<lparr>p_id = pairs_next c, p_asset_tag = trim (pb_assetTag pb),
                       p_serial = trim (pb_serial pb),
                       p_scanned_at = clock c (Suc (clock_reads c)), p_status = pending\<rparr>] \<and>
         pb_error (fst (confirm_missing_tag (validateAndAddPair (pb, c)))) = [] \<and>
         \<not> pb_showMissingTagDialog (fst (confirm_missing_tag (validateAndAddPair (pb, c))))"
proof -
  let ?t = "trim (pb_assetTag pb)"
  let ?pb1 = "pb\<lparr>pb_isValidating := False, pb_error := [], pb_success := [],
                 pb_showMissingTagDialog := True\<rparr>"
  have first: "validateAndAddPair (pb, c) = (?pb1, c)"
    using assms by (simp add: validateAndAddPair_def Let_def)
  let ?c1 = "updateAssetTag c ?t unused None"
  let ?pb2 = "?pb1\<lparr>pb_showMissingTagDialog := False\<rparr>"
  have can2: "canAddPair ?pb2" using assms(1) by (simp add: canAddPair_def)
  have look: "getAssetTag ?c1 ?t =
     Some \<lparr>at_tag = ?t, at_status = unused, at_last_serial = None,
            at_updated_at = clock c (clock_reads c)\<rparr>"
    by (simp add: getAssetTag_updateAssetTag)
  have second: "confirm_missing_tag (?pb1, c) =
     (?pb2\<lparr>pb_isValidating := False, pb_error := [], pb_success := check_mark @ '' Pair saved: '' @ ?t
                                       @ '' '' @ arrow @ '' '' @ trim (pb_serial pb)\<rparr>,
      fst (addPair ?c1 ?t (trim (pb_serial pb))))"
    using can2 look
    by (simp add: confirm_missing_tag_def validateAndAddPair_def Let_def case_prod_beta)
  have tag_kept: "getAssetTag (fst (addPair ?c1 ?t (trim (pb_serial pb)))) ?t = getAssetTag ?c1 ?t"
    by (simp add: getAssetTag_def)
  show ?thesis
    unfolding first second
    using look tag_kept by (simp add: cancel_missing_tag_def)
qed

theorem unknown_tag_flow_witness:
  "snd (validateAndAddPair (form ''AT999'' ''SN1'', example_client)) = example_client \<and>
   getAssetTag example_client ''AT999'' = None \<and>
   getAssetTag (snd (confirm_missing_tag
       (validateAndAddPair (form ''AT999'' ''SN1'', example_client)))) ''AT999'' =
     Some \<lparr>at_tag = ''AT999'', at_status = unused, at_last_serial = None, at_updated_at = 100\<rparr> \<and>
   pairs (snd (confirm_missing_tag
       (validateAndAddPair (form ''AT999'' ''SN1'', example_client)))) =
     pairs example_client @ [\<lparr>p_id = 2, p_asset_tag = ''AT999'', p_serial = ''SN1'',
                               p_scanned_at = 101, p_status = pending\<rparr>]"
proof -
  have can: "canAddPair (form ''AT999'' ''SN1'')"
    by (simp add: canAddPair_def form_def)
  have absent: "getAssetTag example_client (trim (pb_assetTag (form ''AT999'' ''SN1''))) = None"
    by (simp add: getAssetTag_def example_client_def form_def)
  from unknown_tag_flow[OF can absent] absent
  show ?thesis by (simp add: form_def example_client_def)
qed


lemma upsert_tags_restamped:
  "upsert_tags c (map (\<lambda>a. a\<lparr>at_updated_at := g a\<rparr>) ts) = upsert_tags c ts"
  by (induction ts arbitrary: c) simp_all

lemma syncAssetTags_restamped:
  "syncAssetTags (restamped g fetch) nm rc = syncAssetTags fetch nm rc"
proof -
  obtain r c where rc: "rc = (r, c)" by (cases rc)
  obtain token c1 where g: "getCurrentAuthToken c = (token, c1)"
    by (cases "getCurrentAuthToken c")
  obtain r1 resp where f: "fetch r (bearer token) (watermark c) = (r1, resp)"
    by (cases "fetch r (bearer token) (watermark c)")
  show ?thesis
    using rc g f
    by (cases resp)
       (simp_all add: syncAssetTags_def getAssetTags_def makeRequest_def restamped_def
          upsert_tags_restamped)
qed

lemma set_put_tag: "set (put_tag a tbl) \<subseteq> insert a (set tbl)"
  by (auto simp: put_tag_def)

lemma updateAssetTag_stamps:
  "at_updated_at ` set (assetTags (updateAssetTag c tag st ls))
     \<subseteq> at_updated_at ` set (assetTags c) \<union> range (clock c)"
proof -
  have "set (assetTags (updateAssetTag c tag st ls)) \<subseteq>
        insert \<lparr>at_tag = tag, at_status = st, at_last_serial = ls,
                at_updated_at = clock c (clock_reads c)\<rparr> (set (assetTags c))"
    using set_put_tag by (simp add: updateAssetTag_def date_now_def)
  then show ?thesis by auto
qed

lemma upsert_tags_clock: "clock (upsert_tags c ts) = clock c"
  by (induction ts arbitrary: c) simp_all

lemma upsert_tags_stamps:
  "at_updated_at ` set (assetTags (upsert_tags c ts))
     \<subseteq> at_updated_at ` set (assetTags c) \<union> range (clock c)"
proof (induction ts arbitrary: c)
  case Nil
  then show ?case by simp
next
  case (Cons t ts)
  let ?c1 = "updateAssetTag c (at_tag t) (at_status t) (at_last_serial t)"
  have "at_updated_at ` set (assetTags (upsert_tags ?c1 ts))
          \<subseteq> at_updated_at ` set (assetTags ?c1) \<union> range (clock c)"
    using Cons.IH[of ?c1] by simp
  with updateAssetTag_stamps[of c "at_tag t" "at_status t" "at_last_serial t"]
  show ?case by (simp only: upsert_tags.simps) blast
qed

lemma fold_max_in: "fold max xs (a::nat) \<in> insert a (set xs)"
  by (induction xs arbitrary: a) (auto simp: max_def)

lemma watermark_in_stamps: "watermark c = Some w \<Longrightarrow> w \<in> at_updated_at ` set (assetTags c)"
proof (cases "assetTags c")
  case Nil
  assume "watermark c = Some w"
  with Nil show ?thesis by (simp add: watermark_def)
next
  case (Cons a as)
  assume "watermark c = Some w"
  with Cons have "w = fold max (map at_updated_at as) (at_updated_at a)"
    by (simp add: watermark_def)
  with fold_max_in[of "map at_updated_at as" "at_updated_at a"] Cons show ?thesis by auto
qed

lemma syncAssetTags_stamps:
  "at_updated_at ` set (assetTags (snd (syncAssetTags fetch nm rc)))
     \<subseteq> at_updated_at ` set (assetTags (snd rc)) \<union> range (clock (snd rc))"
proof -
  obtain r c where rc: "rc = (r, c)" by (cases rc)
  obtain token c1 where g: "getCurrentAuthToken c = (token, c1)"
    by (cases "getCurrentAuthToken c")
  from g getCurrentAuthToken_keeps(1,4)[of c]
  have keep: "assetTags c1 = assetTags c" "clock c1 = clock c" by simp_all
  obtain r1 resp where f: "fetch r (bearer token) (watermark c) = (r1, resp)"
    by (cases "fetch r (bearer token) (watermark c)")
  show ?thesis
  proof (cases resp)
    case (FetchThrows msg)
    with rc g f keep show ?thesis
      by (auto simp: syncAssetTags_def getAssetTags_def makeRequest_def)
  next
    case (Response status btxt tags)
    with rc g f keep upsert_tags_stamps[of c1 tags] show ?thesis
      by (auto simp: syncAssetTags_def getAssetTags_def makeRequest_def)
  qed
qed

text \<open>
  Claim C10. An upsert into the asset-tag cache stores the reading of the local clock as
  \<open>updated_at\<close>; a cache refresh gives the same result whatever \<open>updated_at\<close> values
  the remote sent; and the watermark after a refresh is a value that was stored before
  or a reading of the local clock.
\<close>

theorem updated_at_is_local_time:
  "getAssetTag (updateAssetTag c tag st ls) tag =
     Some \<lparr>at_tag = tag, at_status = st, at_last_serial = ls,
            at_updated_at = clock c (clock_reads c)\<rparr> \<and>
   syncAssetTags (restamped g fetch) nm rc = syncAssetTags fetch nm rc \<and>
   (\<forall>w. watermark (snd (syncAssetTags fetch nm rc)) = Some w \<longrightarrow>
        w \<in> at_updated_at ` set (assetTags (snd rc)) \<union> range (clock (snd rc)))"
proof -
  have "w \<in> at_updated_at ` set (assetTags (snd rc)) \<union> range (clock (snd rc))"
    if "watermark (snd (syncAssetTags fetch nm rc)) = Some w" for w
    using watermark_in_stamps[OF that] syncAssetTags_stamps[of fetch nm rc] by blast
  then show ?thesis
    by (simp add: getAssetTag_updateAssetTag syncAssetTags_restamped)
qed

lemma example_sync:
  "assetTags (snd (syncAssetTags serve_tags \<lparr>isOnline = True\<rparr> (0, example_client))) =
     [\<lparr>at_tag = ''AT001'', at_status = used, at_last_serial = Some ''SN1'', at_updated_at = 102\<rparr>,
      \<lparr>at_tag = ''AT002'', at_status = unused, at_last_serial = None, at_updated_at = 2\<rparr>,
      \<lparr>at_tag = ''AT003'', at_status = used, at_last_serial = Some ''SN3'', at_updated_at = 101\<rparr>]"
  by (simp add: syncAssetTags_def getAssetTags_def makeRequest_def serve_tags_def
      getCurrentAuthToken_def date_now_def example_client_def bearer_def watermark_def
      ok_status_def
      updateAssetTag_def put_tag_def)

theorem updated_at_is_local_time_witness:
  "watermark (snd (syncAssetTags serve_tags \<lparr>isOnline = True\<rparr> (0, example_client))) = Some 102 \<and>
   102 \<in> at_updated_at ` set (assetTags example_client) \<union> range (clock example_client) \<and>
   7 \<notin> at_updated_at ` set (assetTags example_client) \<union> range (clock example_client)"
proof -
  have w: "watermark (snd (syncAssetTags serve_tags \<lparr>isOnline = True\<rparr> (0, example_client)))
             = Some 102"
    by (simp add: watermark_def example_sync)
  have "7 \<notin> at_updated_at ` set (assetTags example_client) \<union> range (clock example_client)"
    by (auto simp: example_client_def)
  with w updated_at_is_local_time[of example_client "''AT001''" used None "\<lambda>a. 0" serve_tags
      "\<lparr>isOnline = True\<rparr>" "(0, example_client)"]
  show ?thesis by simp
qed


section \<open>Properties of the replay of queued batches\<close>

lemma update_batch_fields [simp]:
  "pairs (update_batch k f c) = pairs c"
  "assetTags (update_batch k f c) = assetTags c"
  "uploadQueue (update_batch k f c) = map (\<lambda>b. if b_id b = k then f b else b) (uploadQueue c)"
  by (simp_all add: update_batch_def)

lemma update_pair_where_fields [simp]:
  "uploadQueue (update_pair_where sel st c) = uploadQueue c"
  "assetTags (update_pair_where sel st c) = assetTags c"
  "pairs (update_pair_where sel st c) = map (\<lambda>p. if sel p then p\<lparr>p_status := st\<rparr> else p) (pairs c)"
  by (simp_all add: update_pair_where_def)

lemma apply_results_fields [simp]:
  "pairs (apply_results c rs) = pairs c"
  "uploadQueue (apply_results c rs) = uploadQueue c"
  by (induction rs arbitrary: c) simp_all

lemma mark_uploaded_fields [simp]:
  "uploadQueue (mark_uploaded rs prs c) = uploadQueue c"
  "assetTags (mark_uploaded rs prs c) = assetTags c"
  by (induction prs arbitrary: c) (simp_all split: option.splits)

lemma getAssetTag_cong: "assetTags c = assetTags c' \<Longrightarrow> getAssetTag c t = getAssetTag c' t"
  by (simp add: getAssetTag_def)

lemma getAssetTag_apply_results:
  "\<forall>res\<in>set rs. is_success (ir_status res) \<longrightarrow> ir_asset_tag res \<noteq> t \<Longrightarrow>
   getAssetTag (apply_results c rs) t = getAssetTag c t"
  by (induction rs arbitrary: c) (simp_all add: getAssetTag_updateAssetTag)

lemma pairs_mark_uploaded:
  "pairs (mark_uploaded rs prs c) =
     map (\<lambda>q. if \<exists>pr\<in>set prs. same_key q pr \<and> item_succeeded rs pr
               then q\<lparr>p_status := uploaded\<rparr> else q) (pairs c)"
proof (induction prs arbitrary: c)
  case Nil
  then show ?case by simp
next
  case (Cons pr prs)
  show ?case
  proof (cases "item_succeeded rs pr")
    case True
    then obtain res where "result_for rs pr = Some res" "is_success (ir_status res)"
      by (auto simp: item_succeeded_def split: option.splits)
    then have "mark_uploaded rs (pr # prs) c =
       mark_uploaded rs prs (update_pair_where (\<lambda>q. same_key q pr) uploaded c)"
      by (simp add: same_key_def)
    then show ?thesis
      using True by (auto simp: Cons.IH same_key_def)
  next
    case False
    then have "mark_uploaded rs (pr # prs) c = mark_uploaded rs prs c"
      by (auto simp: item_succeeded_def split: option.splits)
    then show ?thesis using False by (auto simp: Cons.IH)
  qed
qed


lemma replay_batch_ok:
  assumes "fetch r (bearer (fst (getCurrentAuthToken c))) (b_items batch)
             = (r1, Response status btxt results)"
    and "ok_status status"
  shows "replay_batch fetch batch (r, c) =
     (r1, mark_uploaded results (b_items batch)
            (update_batch (b_id batch) (\<lambda>b. b\<lparr>b_status := b_done\<rparr>)
               (apply_results (snd (getCurrentAuthToken c)) results)))"
  using assms
  by (auto simp: replay_batch_def uploadPairs_def makeRequest_def case_prod_beta ok_status_def)

text \<open>
  Claim C2, as amended. When the upload call of a replayed batch returns a response
  (status 200 to 299), whatever the item outcomes in it: the batch is marked \<open>done\<close>
  and the other batches are left as they are; the rows of the pairs table stay the same
  rows, and every local pair with the asset_tag and serial of a batch item whose result
  is a success is marked \<open>uploaded\<close>; the cache entry of every tag that no successful
  result names, so of every tag reported \<open>missing_asset_tag\<close>, is unchanged.
\<close>

theorem replay_batch_partial_success:
  assumes "fetch r (bearer (fst (getCurrentAuthToken c))) (b_items batch)
             = (r1, Response status btxt results)"
    and "ok_status status"
  shows "uploadQueue (snd (replay_batch fetch batch (r, c))) =
           map (\<lambda>b. if b_id b = b_id batch then b\<lparr>b_status := b_done\<rparr> else b) (uploadQueue c) \<and>
         map p_id (pairs (snd (replay_batch fetch batch (r, c)))) = map p_id (pairs c) \<and>
         (\<forall>q\<in>set (pairs (snd (replay_batch fetch batch (r, c)))).
            (\<exists>pr\<in>set (b_items batch). same_key q pr \<and> item_succeeded results pr)
              \<longrightarrow> p_status q = uploaded) \<and>
         (\<forall>t. (\<forall>res\<in>set results. is_success (ir_status res) \<longrightarrow> ir_asset_tag res \<noteq> t)
              \<longrightarrow> getAssetTag (snd (replay_batch fetch batch (r, c))) t = getAssetTag c t)"
proof -
  let ?c1 = "snd (getCurrentAuthToken c)"
  let ?c' = "mark_uploaded results (b_items batch)
            (update_batch (b_id batch) (\<lambda>b. b\<lparr>b_status := b_done\<rparr>) (apply_results ?c1 results))"
  have eq: "snd (replay_batch fetch batch (r, c)) = ?c'"
    using replay_batch_ok[where fetch = fetch and r = r and c = c and batch = batch, OF assms]
    by simp
  have q: "uploadQueue ?c' =
     map (\<lambda>b. if b_id b = b_id batch then b\<lparr>b_status := b_done\<rparr> else b) (uploadQueue c)"
    by (simp add: getCurrentAuthToken_keeps)
  have ps: "pairs ?c' = map (\<lambda>q. if \<exists>pr\<in>set (b_items batch). same_key q pr \<and> item_succeeded results pr
               then q\<lparr>p_status := uploaded\<rparr> else q) (pairs c)"
    by (simp add: pairs_mark_uploaded getCurrentAuthToken_keeps)
  have ids: "map p_id (pairs ?c') = map p_id (pairs c)"
    unfolding ps by (induction "pairs c") auto
  have up: "p_status q = uploaded"
    if "q \<in> set (pairs ?c')" "\<exists>pr\<in>set (b_items batch). same_key q pr \<and> item_succeeded results pr"
    for q
    using that unfolding ps by (auto simp: same_key_def)
  have tags: "getAssetTag ?c' t = getAssetTag c t"
    if "\<forall>res\<in>set results. is_success (ir_status res) \<longrightarrow> ir_asset_tag res \<noteq> t" for t
  proof -
    have "getAssetTag ?c' t = getAssetTag (apply_results ?c1 results) t"
      by (rule getAssetTag_cong) simp
    also have "\<dots> = getAssetTag ?c1 t" by (rule getAssetTag_apply_results[OF that])
    also have "\<dots> = getAssetTag c t"
      by (rule getAssetTag_cong) (simp add: getCurrentAuthToken_keeps)
    finally show ?thesis .
  qed
  show ?thesis unfolding eq using q ids up tags by blast
qed


lemmas replay_eval = on_online_def processOfflineQueue_def getPendingUploads_def
  replay_batch_def uploadPairs_def makeRequest_def getCurrentAuthToken_def date_now_def
  bearer_def is_success_def updateAssetTag_def put_tag_def update_batch_def result_for_def
  update_pair_where_def ok_status_def

lemma mixed_replay:
  "uploadQueue (snd (snd (on_online mixed_reply \<lparr>isOnline = False\<rparr> (0, mixed_client)))) =
     [(hd (uploadQueue mixed_client))\<lparr>b_status := b_done\<rparr>]"
  "map p_status (pairs (snd (snd (on_online mixed_reply \<lparr>isOnline = False\<rparr> (0, mixed_client)))))
     = [uploaded, pending]"
  "assetTags (snd (snd (on_online mixed_reply \<lparr>isOnline = False\<rparr> (0, mixed_client)))) =
     [\<lparr>at_tag = ''AT001'', at_status = used, at_last_serial = Some ''SN1'', at_updated_at = 101\<rparr>]"
  by (simp_all add: replay_eval mixed_reply_def mixed_client_def)

text \<open>
  Claim C2 as stated fails: a batch of two pairs whose response reports \<open>ok_inserted\<close>
  for the first and \<open>missing_asset_tag\<close> for the second ends with status \<open>done\<close> and
  no error message, and the second pair keeps status \<open>pending\<close>.
\<close>

theorem replay_partial_failure_counterexample:
  "snd (mixed_reply 0 (Some ''jwt'') (b_items (hd (uploadQueue mixed_client)))) =
     Response 200 []
       [\<lparr>ir_status = ok_inserted, ir_asset_tag = ''AT001'', ir_serial = ''SN1'', ir_message = None\<rparr>,
        \<lparr>ir_status = missing_asset_tag, ir_asset_tag = ''AT999'', ir_serial = ''SN9'',
          ir_message = Some ''Asset tag not found''\<rparr>] \<and>
   map b_status (uploadQueue (snd (snd (on_online mixed_reply \<lparr>isOnline = False\<rparr>
       (0, mixed_client))))) = [b_done] \<and>
   map b_error_message (uploadQueue (snd (snd (on_online mixed_reply \<lparr>isOnline = False\<rparr>
       (0, mixed_client))))) = [None] \<and>
   map (\<lambda>q. (p_asset_tag q, p_status q)) (pairs (snd (snd (on_online mixed_reply
       \<lparr>isOnline = False\<rparr> (0, mixed_client))))) = [(''AT001'', uploaded), (''AT999'', pending)]"
  by (simp add: replay_eval mixed_reply_def mixed_client_def)

theorem replay_batch_partial_success_witness:
  "uploadQueue (snd (replay_batch mixed_reply (hd (uploadQueue mixed_client)) (0, mixed_client))) =
     [(hd (uploadQueue mixed_client))\<lparr>b_status := b_done\<rparr>] \<and>
   map p_status (pairs (snd (replay_batch mixed_reply (hd (uploadQueue mixed_client))
       (0, mixed_client)))) = [uploaded, pending] \<and>
   getAssetTag (snd (replay_batch mixed_reply (hd (uploadQueue mixed_client)) (0, mixed_client)))
       ''AT999'' = None"
proof -
  let ?b = "hd (uploadQueue mixed_client)"
  let ?rs = "[\<lparr>ir_status = ok_inserted, ir_asset_tag = ''AT001'', ir_serial = ''SN1'',
               ir_message = None\<rparr>,
              \<lparr>ir_status = missing_asset_tag, ir_asset_tag = ''AT999'', ir_serial = ''SN9'',
               ir_message = Some ''Asset tag not found''\<rparr>]"
  let ?c' = "snd (replay_batch mixed_reply ?b (0, mixed_client))"
  have f: "mixed_reply 0 (bearer (fst (getCurrentAuthToken mixed_client))) (b_items ?b)
             = (1, Response 200 [] ?rs)"
    by (simp add: mixed_reply_def mixed_client_def)
  have ok: "ok_status 200" by (simp add: ok_status_def)
  note main = replay_batch_partial_success[where fetch = mixed_reply and r = 0
      and c = mixed_client and batch = ?b, OF f ok]
  have q: "uploadQueue ?c' = [?b\<lparr>b_status := b_done\<rparr>]"
    using main by (simp add: mixed_client_def)
  have absent: "getAssetTag ?c' ''AT999'' = None"
    using main by (simp add: is_success_def getAssetTag_def mixed_client_def)
  have ids: "map p_id (pairs ?c') = [1, 2]"
    using main by (simp add: mixed_client_def)
  have sts: "map p_status (pairs ?c') = [uploaded, pending]"
    by (simp add: replay_eval mixed_reply_def mixed_client_def)
  from q absent sts show ?thesis by simp
qed


lemma b_id_settle [simp]: "b_id (settle resp b) = b_id b"
  by (simp add: settle_def split: fetch_result.splits)

lemma replay_batch_logged:
  assumes "fetch r (bearer (fst (getCurrentAuthToken c))) (b_items batch) = (r1, resp)"
  shows "\<exists>c'. replay_batch (logged fetch) batch ((r, lg), c)
                = ((r1, lg @ [(b_items batch, resp)]), c') \<and>
              (\<not> is_401 resp \<longrightarrow>
                 uploadQueue c' =
                   map (\<lambda>b. if b_id b = b_id batch then settle resp b else b) (uploadQueue c))"
proof (cases resp)
  case (FetchThrows msg)
  with assms show ?thesis
    by (simp add: replay_batch_def uploadPairs_def makeRequest_def logged_def case_prod_beta
        settle_def is_401_def getCurrentAuthToken_keeps)
next
  case (Response status btxt results)
  show ?thesis
  proof (cases "status = 401")
    case True
    with assms Response show ?thesis
      by (simp add: replay_batch_def uploadPairs_def makeRequest_def logged_def case_prod_beta
          is_401_def)
  next
    case False
    show ?thesis
    proof (cases "ok_status status")
      case True
      with assms Response \<open>status \<noteq> 401\<close> show ?thesis
        by (simp add: replay_batch_def uploadPairs_def makeRequest_def logged_def
            case_prod_beta settle_def ok_status_def getCurrentAuthToken_keeps)
    next
      case False
      with assms Response \<open>status \<noteq> 401\<close> show ?thesis
        by (auto simp: replay_batch_def uploadPairs_def makeRequest_def logged_def
            case_prod_beta settle_def ok_status_def getCurrentAuthToken_keeps)
    qed
  qed
qed

lemma fold_replay_logged:
  "\<exists>r' resps c'.
     fold (replay_batch (logged fetch)) bs ((r, lg), c)
       = ((r', lg @ zip (map b_items bs) resps), c') \<and>
     length resps = length bs \<and>
     ((\<forall>resp\<in>set resps. \<not> is_401 resp) \<longrightarrow>
        uploadQueue c' =
          fold (\<lambda>(b, resp) q. map (\<lambda>x. if b_id x = b_id b then settle resp x else x) q)
            (zip bs resps) (uploadQueue c))"
proof (induction bs arbitrary: r lg c)
  case Nil
  show ?case by simp
next
  case (Cons b bs)
  obtain r1 resp where f: "fetch r (bearer (fst (getCurrentAuthToken c))) (b_items b) = (r1, resp)"
    by (cases "fetch r (bearer (fst (getCurrentAuthToken c))) (b_items b)")
  from replay_batch_logged[where fetch = fetch and r = r and c = c and batch = b, OF f, of lg]
  obtain c1 where step: "replay_batch (logged fetch) b ((r, lg), c)
                = ((r1, lg @ [(b_items b, resp)]), c1)"
    and q1: "\<not> is_401 resp \<Longrightarrow> uploadQueue c1 =
                   map (\<lambda>x. if b_id x = b_id b then settle resp x else x) (uploadQueue c)"
    by blast
  from Cons.IH[of r1 "lg @ [(b_items b, resp)]" c1]
  obtain r' resps c' where
    rest: "fold (replay_batch (logged fetch)) bs ((r1, lg @ [(b_items b, resp)]), c1)
       = ((r', (lg @ [(b_items b, resp)]) @ zip (map b_items bs) resps), c')"
    and len: "length resps = length bs"
    and q: "(\<forall>x\<in>set resps. \<not> is_401 x) \<Longrightarrow>
        uploadQueue c' =
          fold (\<lambda>(b, resp) q. map (\<lambda>x. if b_id x = b_id b then settle resp x else x) q)
            (zip bs resps) (uploadQueue c1)"
    by blast
  have "fold (replay_batch (logged fetch)) (b # bs) ((r, lg), c)
       = ((r', lg @ zip (map b_items (b # bs)) (resp # resps)), c')"
    using step rest by simp
  moreover have "length (resp # resps) = length (b # bs)" using len by simp
  moreover have "uploadQueue c' =
          fold (\<lambda>(b, resp) q. map (\<lambda>x. if b_id x = b_id b then settle resp x else x) q)
            (zip (b # bs) (resp # resps)) (uploadQueue c)"
    if "\<forall>x\<in>set (resp # resps). \<not> is_401 x"
    using that q q1 by simp
  ultimately show ?case by blast
qed

lemma fold_settle_map:
  "distinct (map b_id bs) \<Longrightarrow> length resps = length bs \<Longrightarrow>
   fold (\<lambda>(b, resp) q. map (\<lambda>x. if b_id x = b_id b then settle resp x else x) q)
     (zip bs resps) queue
   = settle_queue (zip (map b_id bs) resps) queue"
proof (induction bs arbitrary: resps queue)
  case Nil
  then show ?case by (simp add: settle_queue_def)
next
  case (Cons b bs)
  from Cons.prems(2) obtain resp rest where resps: "resps = resp # rest"
    by (cases resps) auto
  with Cons.prems have d: "distinct (map b_id bs)" and nin: "b_id b \<notin> set (map b_id bs)"
    and len: "length rest = length bs" by simp_all
  have none: "map_of (zip (map b_id bs) rest) (b_id b) = None"
    using nin len by (simp add: map_of_zip_is_None)
  show ?case
    unfolding resps
    using Cons.IH[OF d len] none
    by (auto simp: settle_queue_def)
qed


lemma not_pending_unanswered:
  assumes "distinct (map b_id queue)" and "b \<in> set queue" and "b_status b \<noteq> b_pending"
    and "length resps = length (filter (\<lambda>b. b_status b = b_pending) queue)"
  shows "map_of (zip (map b_id (filter (\<lambda>b. b_status b = b_pending) queue)) resps) (b_id b) = None"
proof -
  have "b_id b \<notin> set (map b_id (filter (\<lambda>b. b_status b = b_pending) queue))"
  proof
    assume "b_id b \<in> set (map b_id (filter (\<lambda>b. b_status b = b_pending) queue))"
    then obtain x where x: "x \<in> set queue" "b_status x = b_pending" "b_id x = b_id b" by auto
    with assms(1,2) have "x = b" by (meson distinct_map inj_onD)
    with x(2) assms(3) show False by simp
  qed
  with assms(4) show ?thesis by (simp add: map_of_zip_is_None)
qed

text \<open>
  Claim C1, as amended. On a transition to online, the batches whose status is
  \<open>pending\<close>, and only those, are each submitted as one remote upload call, in the
  order of the queue (its primary key), which is oldest first by created_at when
  created_at is non-decreasing along the queue. Unless a call is answered 401 (which
  clears the queue), each submitted batch ends with the status of its own answer,
  \<open>done\<close> when the call returned and \<open>error\<close> with the message when it threw, and
  every batch that was not pending, so every batch with status \<open>error\<close>, is left as it
  was. The ids of the queue are distinct, as keys of a table are.
\<close>

theorem online_replays_pending_batches:
  assumes "distinct (map b_id (uploadQueue c))"
    and "on_online (logged fetch) nm ((r, []), c) = (nm', (r', lg), c')"
  shows "isOnline nm' \<and>
         map fst lg = map b_items (filter (\<lambda>b. b_status b = b_pending) (uploadQueue c)) \<and>
         (sorted (map b_created_at (uploadQueue c)) \<longrightarrow>
            sorted (map b_created_at (filter (\<lambda>b. b_status b = b_pending) (uploadQueue c)))) \<and>
         ((\<forall>resp\<in>set (map snd lg). \<not> is_401 resp) \<longrightarrow>
            uploadQueue c' =
              settle_queue
                (zip (map b_id (filter (\<lambda>b. b_status b = b_pending) (uploadQueue c)))
                     (map snd lg))
                (uploadQueue c) \<and>
            (\<forall>b\<in>set (uploadQueue c). b_status b \<noteq> b_pending \<longrightarrow> b \<in> set (uploadQueue c')))"
proof -
  let ?P = "filter (\<lambda>b. b_status b = b_pending) (uploadQueue c)"
  from fold_replay_logged[of fetch ?P r "[]" c]
  obtain r2 resps c2 where
    run: "fold (replay_batch (logged fetch)) ?P ((r, []), c) = ((r2, zip (map b_items ?P) resps), c2)"
    and len: "length resps = length ?P"
    and q: "(\<forall>resp\<in>set resps. \<not> is_401 resp) \<Longrightarrow>
        uploadQueue c2 =
          fold (\<lambda>(b, resp) q. map (\<lambda>x. if b_id x = b_id b then settle resp x else x) q)
            (zip ?P resps) (uploadQueue c)"
    by auto
  from assms(2) run have nm': "isOnline nm'" and lg: "lg = zip (map b_items ?P) resps"
    and c': "c' = c2"
    by (auto simp: on_online_def processOfflineQueue_def getPendingUploads_def Let_def)
  from lg len have calls: "map fst lg = map b_items ?P" and answers: "map snd lg = resps"
    by simp_all
  have dP: "distinct (map b_id ?P)" using assms(1) by (rule distinct_map_filter)
  have settled: "uploadQueue c' = settle_queue (zip (map b_id ?P) (map snd lg)) (uploadQueue c)"
    if "\<forall>resp\<in>set (map snd lg). \<not> is_401 resp"
    using q that fold_settle_map[OF dP len, of "uploadQueue c"] answers c' by simp
  have kept: "b \<in> set (uploadQueue c')"
    if "\<forall>resp\<in>set (map snd lg). \<not> is_401 resp" "b \<in> set (uploadQueue c)"
       "b_status b \<noteq> b_pending" for b
  proof -
    have "map_of (zip (map b_id ?P) (map snd lg)) (b_id b) = None"
      using not_pending_unanswered[OF assms(1) that(2,3), of resps] len answers by simp
    then have "(case map_of (zip (map b_id ?P) (map snd lg)) (b_id b) of
                  None \<Rightarrow> b | Some resp \<Rightarrow> settle resp b) = b" by simp
    with that(2) show ?thesis
      unfolding settled[OF that(1)] settle_queue_def by force
  qed
  from nm' calls settled kept sorted_filter[of b_created_at "uploadQueue c"]
  show ?thesis by blast
qed


lemma queue_run_log:
  "snd (fst (snd queue_run)) =
     [([\<lparr>p_id = 2, p_asset_tag = ''AT002'', p_serial = ''SN2'', p_scanned_at = 2,
         p_status = pending\<rparr>], FetchThrows ''Failed to fetch''),
      ([\<lparr>p_id = 3, p_asset_tag = ''AT003'', p_serial = ''SN3'', p_scanned_at = 3,
         p_status = pending\<rparr>],
       Response 200 []
         [\<lparr>ir_status = ok_inserted, ir_asset_tag = ''AT003'', ir_serial = ''SN3'',
           ir_message = None\<rparr>])]"
  by (simp add: queue_run_def replay_eval logged_def flaky_def queue_client_def)

text \<open>
  Claim C1 as stated fails: with a queue of one batch with status \<open>error\<close> followed by
  two pending batches, the online transition makes two upload calls, for the second and
  the third batch, and none for the batch with status \<open>error\<close>.
\<close>

theorem error_batch_not_replayed_counterexample:
  "map b_status (uploadQueue queue_client) = [b_error, b_pending, b_pending] \<and>
   map b_created_at (uploadQueue queue_client) = [4, 5, 6] \<and>
   map fst (snd (fst (snd (on_online (logged flaky) \<lparr>isOnline = False\<rparr>
       ((0, []), queue_client))))) =
     [b_items (uploadQueue queue_client ! 1), b_items (uploadQueue queue_client ! 2)] \<and>
   b_items (uploadQueue queue_client ! 0) \<notin>
     set (map fst (snd (fst (snd (on_online (logged flaky) \<lparr>isOnline = False\<rparr>
       ((0, []), queue_client))))))"
  using queue_run_log by (simp add: queue_run_def queue_client_def)

theorem online_replays_pending_batches_witness:
  "distinct (map b_id (uploadQueue queue_client)) \<and>
   sorted (map b_created_at (uploadQueue queue_client)) \<and>
   isOnline (fst queue_run) \<and>
   map b_status (uploadQueue (snd (snd queue_run))) = [b_error, b_error, b_done] \<and>
   map b_error_message (uploadQueue (snd (snd queue_run))) =
     [Some ''Failed to fetch'', Some ''Failed to fetch'', None]"
proof -
  have d: "distinct (map b_id (uploadQueue queue_client))"
    by (simp add: queue_client_def)
  have srt: "sorted (map b_created_at (uploadQueue queue_client))"
    by (simp add: queue_client_def)
  have run: "on_online (logged flaky) \<lparr>isOnline = False\<rparr> ((0, []), queue_client) =
               (fst queue_run, (fst (fst (snd queue_run)), snd (fst (snd queue_run))),
                snd (snd queue_run))"
    by (simp add: queue_run_def)
  have no401: "\<forall>resp\<in>set (map snd (snd (fst (snd queue_run)))). \<not> is_401 resp"
    by (simp add: queue_run_log is_401_def)
  from online_replays_pending_batches[where fetch = flaky and c = queue_client, OF d run] no401
  have on: "isOnline (fst queue_run)"
    and q: "uploadQueue (snd (snd queue_run)) =
      settle_queue
        (zip (map b_id (filter (\<lambda>b. b_status b = b_pending) (uploadQueue queue_client)))
             (map snd (snd (fst (snd queue_run)))))
        (uploadQueue queue_client)"
    by blast+
  have "map b_status (uploadQueue (snd (snd queue_run))) = [b_error, b_error, b_done]"
    "map b_error_message (uploadQueue (snd (snd queue_run))) =
       [Some ''Failed to fetch'', Some ''Failed to fetch'', None]"
    unfolding q queue_run_log
    by (simp_all add: settle_queue_def settle_def ok_status_def queue_client_def)
  with d srt on show ?thesis by simp
qed


end
